theory Spec2Isabelle
  imports Main
begin

section \<open>Values exchanged over the queue\<close>

text \<open>
  The services exchange JSON. A decoded payload is a JavaScript value; \<open>JUndefined\<close> is
  what reading an absent property yields. An object is the list of its key/value pairs.
  A number is given by its text, the result of \<open>Number.prototype.toString\<close>: the program
  observes a number only through its type, its truth value and that text.
\<close>

datatype js =
    JUndefined
  | JNull
  | JBool bool
  | JNum string
  | JStr string
  | JArr "js list"
  | JObj "(string \<times> js) list"

datatype error =
    SyntaxError
  | TypeError
  | DuplicateKey
  | DbError
  | BrokerError
  | ChannelClosed
  | CastError
  | IllegalArguments

text \<open>
  Property access \<open>v.k\<close> as destructuring performs it: it throws a TypeError on
  \<open>null\<close> and \<open>undefined\<close>, reads the key of an object, and yields \<open>undefined\<close> for
  a key that the value does not have (the keys read by this program are \<open>userId\<close>,
  \<open>email\<close>, \<open>name\<close> and \<open>event\<close>, which no number, boolean, string or array has).
\<close>

fun get_prop :: "js \<Rightarrow> string \<Rightarrow> error + js" where
  "get_prop JUndefined k = Inl TypeError"
| "get_prop JNull k = Inl TypeError"
| "get_prop (JObj kvs) k = (case map_of kvs k of None \<Rightarrow> Inr JUndefined | Some v \<Rightarrow> Inr v)"
| "get_prop v k = Inr JUndefined"

section \<open>Post Service: shadow store, posts and the event consumer\<close>

text \<open>
  \<open>post-microservice/models/postSchema.js\<close>: a post has a title, a content, the id of
  its user and a creation time.
\<close>

record post =
  post_title :: string
  post_content :: string
  post_userId :: string
  post_createdAt :: nat

text \<open>
  Modelled from the spec: the model \<open>../models/UserModel\<close> that \<open>consumer.js\<close> requires
  is not among the sources. The spec's ShadowUserRecord has an identity (the same id as
  the canonical record), an email and a display name, and no credential; the collection
  keeps identities unique, as the document store does for \<open>_id\<close>.
\<close>

record shadow_user =
  sid :: js
  semail :: js
  sname :: js

text \<open>
  Modelled from the spec: \<open>UserModel.create\<close> inserts the document, and is refused with
  a duplicate-key error when a document with that \<open>_id\<close> is already stored.
\<close>

definition UserModel_create :: "shadow_user \<Rightarrow> shadow_user list \<Rightarrow> error + shadow_user list" where
  "UserModel_create d us =
     (if sid d \<in> set (map sid us) then Inl DuplicateKey else Inr (us @ [d]))"

text \<open>
  Modelled from the spec: \<open>UserModel.findOneAndDelete({_id: userId})\<close> removes the first
  document with that \<open>_id\<close> and resolves (to \<open>null\<close>) when there is none.
\<close>

fun UserModel_findOneAndDelete :: "js \<Rightarrow> shadow_user list \<Rightarrow> shadow_user list" where
  "UserModel_findOneAndDelete i [] = []"
| "UserModel_findOneAndDelete i (u # us) =
     (if sid u = i then us else u # UserModel_findOneAndDelete i us)"

text \<open>The lines the Post Service writes to the console.\<close>

datatype entry =
    Received js
  | UserCreated js
  | UserDeleted js
  | ErrorHandlingUserEvent error

text \<open>A delivery: its tag and what \<open>JSON.parse(message.content.toString())\<close> gives on
  its body, a SyntaxError for a body that is not JSON.\<close>

record message =
  tag :: nat
  parsed :: "error + js"

text \<open>The store operation a running handler is waiting for.\<close>

datatype db_op = Create shadow_user | FindOneAndDelete js

text \<open>
  The state of the Post Service: the shadow users, the posts, the console, the
  deliveries acknowledged to the broker, the handlers suspended at their \<open>await\<close>, in
  the order they were called, and the rejections of handler promises (nothing in the
  program observes the promise \<open>handler(content)\<close> returns). \<open>store_down\<close> is the
  condition of the document store: when it is unreachable, every operation on it throws.
\<close>

record post_service =
  users :: "shadow_user list"
  posts :: "post list"
  console :: "entry list"
  acked :: "nat list"
  pending :: "db_op list"
  rejected :: "error list"
  store_down :: bool

definition log_entry :: "entry \<Rightarrow> post_service \<Rightarrow> post_service" where
  "log_entry e st = st\<lparr>console := console st @ [e]\<rparr>"

text \<open>
  \<open>handleUserEvent\<close> (consumer.js) is an async function. Calling it runs its body up to
  the first \<open>await\<close>: the destructuring of the message, outside the \<open>try\<close>, and the choice
  of the store operation by the \<open>event\<close> tag. \<open>handler_start\<close> is that part.
\<close>

datatype started = Rejected error | Finished | Awaiting db_op

definition handler_start :: "js \<Rightarrow> started" where
  "handler_start m =
     (case get_prop m ''userId'' of Inl e \<Rightarrow> Rejected e | Inr userId \<Rightarrow>
     (case get_prop m ''email'' of Inl e \<Rightarrow> Rejected e | Inr email \<Rightarrow>
     (case get_prop m ''name'' of Inl e \<Rightarrow> Rejected e | Inr name \<Rightarrow>
     (case get_prop m ''event'' of Inl e \<Rightarrow> Rejected e | Inr event \<Rightarrow>
        if event = JStr ''user_signup''
        then Awaiting (Create \<lparr>sid = userId, semail = email, sname = name\<rparr>)
        else if event = JStr ''user_delete''
        then Awaiting (FindOneAndDelete userId)
        else Finished))))"

text \<open>
  \<open>handler_resume\<close> is the rest of the body, run when the store operation completes:
  the operation takes effect, then the success line is logged, or the \<open>catch\<close> logs the
  error; either way the handler's promise is fulfilled.
\<close>

fun handler_resume :: "db_op \<Rightarrow> post_service \<Rightarrow> post_service" where
  "handler_resume (Create d) st =
     (if store_down st then log_entry (ErrorHandlingUserEvent DbError) st
      else case UserModel_create d (users st) of
             Inl e \<Rightarrow> log_entry (ErrorHandlingUserEvent e) st
           | Inr us \<Rightarrow> log_entry (UserCreated (sname d)) (st\<lparr>users := us\<rparr>))"
| "handler_resume (FindOneAndDelete i) st =
     (if store_down st then log_entry (ErrorHandlingUserEvent DbError) st
      else log_entry (UserDeleted i)
             (st\<lparr>users := UserModel_findOneAndDelete i (users st)\<rparr>))"

text \<open>The handler run to completion: the outcome of its promise and the state it leaves.\<close>

definition handleUserEvent :: "js \<Rightarrow> post_service \<Rightarrow> (error + unit) \<times> post_service" where
  "handleUserEvent m st =
     (case handler_start m of
        Rejected e \<Rightarrow> (Inl e, st)
      | Finished \<Rightarrow> (Inr (), st)
      | Awaiting op \<Rightarrow> (Inr (), handler_resume op st))"

text \<open>
  The callback \<open>consumeMessages\<close> (utils/rabbitmq.js) registers with
  \<open>channel.consume\<close>. It is not async and has no \<open>try\<close>: an exception of
  \<open>JSON.parse\<close> leaves it (\<open>Inl\<close>). It calls the handler without awaiting it, so the
  handler runs up to its \<open>await\<close> and is left suspended, and then acknowledges.
\<close>

definition handler_call :: "js \<Rightarrow> post_service \<Rightarrow> post_service" where
  "handler_call c st =
     (case handler_start c of
        Rejected e \<Rightarrow> st\<lparr>rejected := rejected st @ [e]\<rparr>
      | Finished \<Rightarrow> st
      | Awaiting op \<Rightarrow> st\<lparr>pending := pending st @ [op]\<rparr>)"

definition ack :: "message \<Rightarrow> post_service \<Rightarrow> post_service" where
  "ack m st = st\<lparr>acked := acked st @ [tag m]\<rparr>"

fun on_message :: "post_service \<Rightarrow> message option \<Rightarrow> error + post_service" where
  "on_message st None = Inr st"
| "on_message st (Some m) =
     (case parsed m of
        Inl e \<Rightarrow> Inl e
      | Inr c \<Rightarrow> Inr (ack m (handler_call c (log_entry (Received c) st))))"

text \<open>
  After the callback has returned, the event loop completes the store operations and
  resumes the suspended handlers, oldest first.
\<close>

fun resume_all :: "db_op list \<Rightarrow> post_service \<Rightarrow> post_service" where
  "resume_all [] st = st"
| "resume_all (op # ops) st = resume_all ops (handler_resume op st)"

definition settle :: "post_service \<Rightarrow> post_service" where
  "settle st = resume_all (pending st) (st\<lparr>pending := []\<rparr>)"

text \<open>
  A run of the subscription: the broker hands the deliveries to the callback one after
  the other, here with the suspended handlers completing in between. No code of the
  repository catches an exception that leaves the callback, so the run ends there, with
  the deliveries not yet handled.
\<close>

fun deliver :: "post_service \<Rightarrow> message list \<Rightarrow> (error \<times> message list) + post_service" where
  "deliver st [] = Inr st"
| "deliver st (m # ms) =
     (case on_message st (Some m) of
        Inl e \<Rightarrow> Inl (e, ms)
      | Inr st' \<Rightarrow> deliver (settle st') ms)"


section \<open>The broker\<close>

text \<open>
  What the client library and the broker do, as far as the two services use them. A body
  put on a queue is \<open>Buffer.from(JSON.stringify(message))\<close>: the bytes of the JSON text of
  the value. A connection or a channel is its handle. \<open>sendToQueue\<close> throws on a closed
  channel; on an open one the body is appended to the queue of that name, and is dropped
  by the broker when no queue of that name is declared.
\<close>

datatype buffer = Json js

record broker =
  connections :: nat
  channels :: nat
  open_channels :: "nat list"
  queues :: "string \<rightharpoonup> buffer list"
  consumers :: "(nat \<times> string) list"

definition amqp_connect :: "broker \<Rightarrow> nat \<times> broker" where
  "amqp_connect b = (connections b, b\<lparr>connections := Suc (connections b)\<rparr>)"

definition createChannel :: "broker \<Rightarrow> nat \<times> broker" where
  "createChannel b =
     (channels b, b\<lparr>channels := Suc (channels b), open_channels := channels b # open_channels b\<rparr>)"

definition assertQueue :: "string \<Rightarrow> broker \<Rightarrow> broker" where
  "assertQueue q b =
     (case queues b q of None \<Rightarrow> b\<lparr>queues := (queues b)(q \<mapsto> [])\<rparr> | Some ms \<Rightarrow> b)"

definition close_channel :: "nat \<Rightarrow> broker \<Rightarrow> broker" where
  "close_channel c b = b\<lparr>open_channels := removeAll c (open_channels b)\<rparr>"

definition sendToQueue :: "nat \<Rightarrow> string \<Rightarrow> buffer \<Rightarrow> broker \<Rightarrow> error + broker" where
  "sendToQueue c q buf b =
     (if c \<notin> set (open_channels b) then Inl ChannelClosed
      else case queues b q of
             None \<Rightarrow> Inr b
           | Some ms \<Rightarrow> Inr (b\<lparr>queues := (queues b)(q \<mapsto> ms @ [buf])\<rparr>))"

definition channel_consume :: "nat \<Rightarrow> string \<Rightarrow> broker \<Rightarrow> error + broker" where
  "channel_consume c q b =
     (if c \<notin> set (open_channels b) then Inl ChannelClosed
      else Inr (b\<lparr>consumers := consumers b @ [(c, q)]\<rparr>))"

definition queue_contents :: "broker \<Rightarrow> string \<Rightarrow> buffer list" where
  "queue_contents b q = (case queues b q of None \<Rightarrow> [] | Some ms \<Rightarrow> ms)"

text \<open>
  The calls that fail for reasons outside the program (the database or the broker is
  unreachable, a request is refused): the environment says which of them fail.
\<close>

datatype call =
    FindOneEmail
  | FindOneName
  | CreateUser
  | FindById
  | FindByIdAndDelete
  | Connect
  | CreateChannel
  | AssertQueue

section \<open>Post Service: connecting and subscribing (utils/rabbitmq.js)\<close>

datatype post_line =
    PostConnectionError error
  | PostConnectionEstablished
  | ErrorConsuming error

text \<open>The module's variables \<open>channel\<close> and \<open>connection\<close>, the broker and the console.\<close>

record post_mq =
  pchannel :: "nat option"
  pconnection :: "nat option"
  pbroker :: broker
  pconsole :: "post_line list"

text \<open>
  \<open>connectQueue\<close> assigns \<open>connection\<close> and \<open>channel\<close> as soon as each is obtained, then
  declares the queue; on any failure it logs and rethrows. A failed queue declaration
  closes the channel, which stays assigned.
\<close>

definition post_connectQueue :: "(call \<Rightarrow> bool) \<Rightarrow> post_mq \<Rightarrow> (error + nat) \<times> post_mq" where
  "post_connectQueue fails st =
     (if fails Connect
      then (Inl BrokerError, st\<lparr>pconsole := pconsole st @ [PostConnectionError BrokerError]\<rparr>)
      else
        let (conn, b1) = amqp_connect (pbroker st);
            st1 = st\<lparr>pconnection := Some conn, pbroker := b1\<rparr>
        in if fails CreateChannel
           then (Inl BrokerError,
                 st1\<lparr>pconsole := pconsole st1 @ [PostConnectionError BrokerError]\<rparr>)
           else
             let (ch, b2) = createChannel b1;
                 st2 = st1\<lparr>pchannel := Some ch, pbroker := b2\<rparr>
             in if fails AssertQueue
                then (Inl BrokerError,
                      st2\<lparr>pbroker := close_channel ch b2,
                          pconsole := pconsole st2 @ [PostConnectionError BrokerError]\<rparr>)
                else (Inr ch,
                      st2\<lparr>pbroker := assertQueue ''user_events'' b2,
                          pconsole := pconsole st2 @ [PostConnectionEstablished]\<rparr>))"

text \<open>
  \<open>consumeMessages\<close>: connect when no channel is assigned, then register the callback
  on the queue. An exception of the connection is logged and not rethrown. The promise
  that \<open>channel.consume\<close> returns is not awaited: when the registration is refused,
  nothing is registered and nothing is logged.
\<close>

definition consumeMessages :: "(call \<Rightarrow> bool) \<Rightarrow> post_mq \<Rightarrow> post_mq" where
  "consumeMessages fails st =
     (case (if pchannel st = None
            then (case post_connectQueue fails st of
                    (Inl e, st1) \<Rightarrow> (Inl e, st1)
                  | (Inr ch, st1) \<Rightarrow> (Inr (), st1))
            else (Inr (), st)) of
        (Inl e, st1) \<Rightarrow> st1\<lparr>pconsole := pconsole st1 @ [ErrorConsuming e]\<rparr>
      | (Inr u, st1) \<Rightarrow>
          (case pchannel st1 of
             None \<Rightarrow> st1\<lparr>pconsole := pconsole st1 @ [ErrorConsuming TypeError]\<rparr>
           | Some c \<Rightarrow>
               (case channel_consume c ''user_events'' (pbroker st1) of
                  Inl e \<Rightarrow> st1
                | Inr b \<Rightarrow> st1\<lparr>pbroker := b\<rparr>)))"

section \<open>User Service: validation (controller/userController.js)\<close>

text \<open>
  A string is the list of its code units, here for code units below 256. The classes of
  the regular expressions: \<open>\s\<close> (tab, line feed, vertical tab, form feed, carriage
  return, space, no-break space), \<open>\d\<close>, the letters, \<open>\w\<close>, and what \<open>.\<close> matches
  (anything but a line terminator).
\<close>

definition is_space :: "char \<Rightarrow> bool" where
  "is_space c = ((of_char c :: nat) \<in> {9, 10, 11, 12, 13, 32, 160})"

definition is_digit :: "char \<Rightarrow> bool" where
  "is_digit c = (48 \<le> (of_char c :: nat) \<and> (of_char c :: nat) \<le> 57)"

definition is_letter :: "char \<Rightarrow> bool" where
  "is_letter c = ((65 \<le> (of_char c :: nat) \<and> (of_char c :: nat) \<le> 90)
     \<or> (97 \<le> (of_char c :: nat) \<and> (of_char c :: nat) \<le> 122))"

definition is_word :: "char \<Rightarrow> bool" where
  "is_word c = (is_letter c \<or> is_digit c \<or> c = CHR ''_'')"

definition is_special :: "char \<Rightarrow> bool" where
  "is_special c = (\<not> is_word c \<or> c = CHR ''_'')"

definition dot :: "char \<Rightarrow> bool" where
  "dot c = ((of_char c :: nat) \<noteq> 10 \<and> (of_char c :: nat) \<noteq> 13)"

text \<open>
  A field of the request body is any JSON value, \<open>JUndefined\<close> when the body does not
  have it. \<open>truthy\<close> is the test \<open>!v\<close> negated: \<open>undefined\<close>, \<open>null\<close>, \<open>false\<close>, zero
  and the empty string are false.
\<close>

fun truthy :: "js \<Rightarrow> bool" where
  "truthy JUndefined = False"
| "truthy JNull = False"
| "truthy (JBool b) = b"
| "truthy (JNum t) = (t \<noteq> ''0'' \<and> t \<noteq> ''NaN'')"
| "truthy (JStr s) = (s \<noteq> [])"
| "truthy (JArr xs) = True"
| "truthy (JObj kvs) = True"

text \<open>
  \<open>v.includes("@")\<close>: a string has the method (is \<open>@\<close> a character of it), an array
  has it (is the string \<open>"@"\<close> an element of it); on any other value the call throws a
  TypeError, since there is no such method or the property is not a function.
\<close>

fun includes_at :: "js \<Rightarrow> error + bool" where
  "includes_at (JStr s) = Inr (CHR ''@'' \<in> set s)"
| "includes_at (JArr xs) = Inr (JStr ''@'' \<in> set xs)"
| "includes_at v = Inl TypeError"

text \<open>
  \<open>to_string\<close> is the conversion \<open>RegExp.prototype.test\<close> applies to its argument. An
  array is the texts of its elements joined by commas, \<open>null\<close> and \<open>undefined\<close>
  elements giving the empty text. An object is \<open>[object Object]\<close>, unless it has a
  property \<open>toString\<close> of its own: that one is not a function, and the conversion throws
  a TypeError. The first element that throws makes the whole conversion throw.
\<close>

fun join_texts :: "(error + string) list \<Rightarrow> error + string" where
  "join_texts [] = Inr []"
| "join_texts [r] = r"
| "join_texts (r # rs) =
     (case r of
        Inl e \<Rightarrow> Inl e
      | Inr s \<Rightarrow> (case join_texts rs of Inl e \<Rightarrow> Inl e | Inr t \<Rightarrow> Inr (s @ '','' @ t)))"

fun to_string :: "js \<Rightarrow> error + string" where
  "to_string JUndefined = Inr ''undefined''"
| "to_string JNull = Inr ''null''"
| "to_string (JBool b) = Inr (if b then ''true'' else ''false'')"
| "to_string (JNum t) = Inr t"
| "to_string (JStr s) = Inr s"
| "to_string (JArr xs) =
     join_texts (map (\<lambda>x. if x = JUndefined \<or> x = JNull then Inr [] else to_string x) xs)"
| "to_string (JObj kvs) =
     (if map_of kvs ''toString'' \<noteq> None then Inl TypeError else Inr ''[object Object]'')"

text \<open>
  \<open>/^[^\s@]+@[^\s@]+\.[^\s@]+$/\<close>: a non-empty run of characters that are neither
  space nor \<open>@\<close>, then \<open>@\<close>, then to the end only such characters, with a dot among
  them that is neither the first nor the last.
\<close>

definition email_char :: "char \<Rightarrow> bool" where
  "email_char c = (\<not> is_space c \<and> c \<noteq> CHR ''@'')"

definition emailPattern :: "string \<Rightarrow> bool" where
  "emailPattern s =
     (takeWhile email_char s \<noteq> [] \<and>
      (case dropWhile email_char s of
         [] \<Rightarrow> False
       | c # d \<Rightarrow> c = CHR ''@'' \<and> list_all email_char d \<and> CHR ''.'' \<in> set (butlast (tl d))))"

definition isValidEmail :: "js \<Rightarrow> error + bool" where
  "isValidEmail email =
     (case to_string email of Inl e \<Rightarrow> Inl e | Inr s \<Rightarrow> Inr (emailPattern s))"

text \<open>
  \<open>/^(?=.*[a-zA-Z])(?=.*\d)(?=.*[\W_]).{6,15}$/\<close>: each lookahead \<open>(?=.*[C])\<close> asks
  for a character of the class with no line terminator before it; then the whole string
  is 6 to 15 characters, none a line terminator.
\<close>

definition lookahead :: "(char \<Rightarrow> bool) \<Rightarrow> string \<Rightarrow> bool" where
  "lookahead P s = (case dropWhile (\<lambda>c. dot c \<and> \<not> P c) s of [] \<Rightarrow> False | c # r \<Rightarrow> P c)"

definition passwordPattern :: "string \<Rightarrow> bool" where
  "passwordPattern s =
     (lookahead is_letter s \<and> lookahead is_digit s \<and> lookahead is_special s
      \<and> 6 \<le> length s \<and> length s \<le> 15 \<and> list_all dot s)"

definition isValidPassword :: "js \<Rightarrow> error + bool" where
  "isValidPassword password =
     (case to_string password of Inl e \<Rightarrow> Inl e | Inr s \<Rightarrow> Inr (passwordPattern s))"

text \<open>\<open>isValidName\<close>: \<open>typeof name === "string"\<close> and a length from 3 to 15.\<close>

definition isValidName :: "js \<Rightarrow> bool" where
  "isValidName name =
     (case name of JStr s \<Rightarrow> 3 \<le> length s \<and> length s \<le> 15 | _ \<Rightarrow> False)"

section \<open>User Service: the store, the publisher and the controllers\<close>

text \<open>
  Modelled from the spec: the model \<open>../models/userSchema\<close> is not among the sources.
  The spec's UserRecord has an identity, an email, a display name and a credential hash.
\<close>

record user =
  uid :: string
  uemail :: string
  upassword :: string
  uname :: string

text \<open>Modelled from the spec: the JSON of a stored document, as \<open>res.json\<close> sends it.\<close>

definition toJSON :: "user \<Rightarrow> js" where
  "toJSON u = JObj [(''_id'', JStr (uid u)), (''email'', JStr (uemail u)),
     (''password'', JStr (upassword u)), (''name'', JStr (uname u))]"

datatype user_line =
    ConnectionError error
  | ConnectionEstablished
  | ErrorPublishing error
  | MessageSent js
  | SignupError error
  | ErrorDeletingUser error
  | DeletedAndPublished string

text \<open>
  The state of the User Service: the user store, the variables \<open>channel\<close> and
  \<open>connection\<close> of utils/rabbitmq.js, the broker and the console.
\<close>

record user_service =
  accounts :: "user list"
  channel :: "nat option"
  connection :: "nat option"
  broker :: broker
  printed :: "user_line list"

text \<open>What the environment decides for one request: which calls fail, the id the
  store gives a new document, and the hash \<open>bcrypt.hash(password, 12)\<close> returns.\<close>

record env =
  fails :: "call \<Rightarrow> bool"
  new_id :: string
  bcrypt_hash :: "string \<Rightarrow> string"

text \<open>The fields \<open>signup\<close> reads from \<open>req.body\<close>.\<close>

record request =
  email :: js
  password :: js
  name :: js

record response =
  status :: nat
  body :: js

definition message_body :: "string \<Rightarrow> js" where
  "message_body m = JObj [(''message'', JStr m)]"

definition say :: "user_line \<Rightarrow> user_service \<Rightarrow> user_service" where
  "say l st = st\<lparr>printed := printed st @ [l]\<rparr>"

text \<open>
  Modelled from the spec: the email and the display name of a UserRecord are strings.
  \<open>UserModal.create\<close> stores the document under a new id and resolves to it; it throws
  when the store fails, when the email or the name it is given is not a string, and when
  the store refuses the id.
\<close>

definition UserModal_create ::
  "env \<Rightarrow> js \<Rightarrow> string \<Rightarrow> js \<Rightarrow> user list \<Rightarrow> error + user \<times> user list" where
  "UserModal_create e em pw nm us =
     (if fails e CreateUser then Inl DbError
      else case (em, nm) of
             (JStr em', JStr nm') \<Rightarrow>
               if new_id e \<in> set (map uid us) then Inl DuplicateKey
               else let u = \<lparr>uid = new_id e, uemail = em', upassword = pw, uname = nm'\<rparr>
                    in Inr (u, us @ [u])
           | _ \<Rightarrow> Inl CastError)"

text \<open>\<open>bcrypt.hash(password, 12)\<close> rejects a password that is not a string.\<close>

definition hash_password :: "env \<Rightarrow> js \<Rightarrow> error + string" where
  "hash_password e pw =
     (case pw of JStr s \<Rightarrow> Inr (bcrypt_hash e s) | _ \<Rightarrow> Inl IllegalArguments)"

text \<open>
  Modelled from the spec: \<open>UserModal.findByIdAndDelete(id)\<close> removes the document
  with that id.
\<close>

fun UserModal_findByIdAndDelete :: "string \<Rightarrow> user list \<Rightarrow> user list" where
  "UserModal_findByIdAndDelete i [] = []"
| "UserModal_findByIdAndDelete i (u # us) =
     (if uid u = i then us else u # UserModal_findByIdAndDelete i us)"

text \<open>The text of an exception, \<open>error.message\<close>.\<close>

fun error_message :: "error \<Rightarrow> string" where
  "error_message SyntaxError = ''SyntaxError''"
| "error_message TypeError = ''TypeError''"
| "error_message DuplicateKey = ''DuplicateKey''"
| "error_message DbError = ''DbError''"
| "error_message BrokerError = ''BrokerError''"
| "error_message ChannelClosed = ''ChannelClosed''"
| "error_message CastError = ''CastError''"
| "error_message IllegalArguments = ''IllegalArguments''"

text \<open>utils/rabbitmq.js of the User Service.\<close>

definition connectQueue :: "env \<Rightarrow> user_service \<Rightarrow> (error + nat) \<times> user_service" where
  "connectQueue e st =
     (if fails e Connect
      then (Inl BrokerError, say (ConnectionError BrokerError) st)
      else
        let (conn, b1) = amqp_connect (broker st);
            st1 = st\<lparr>connection := Some conn, broker := b1\<rparr>
        in if fails e CreateChannel
           then (Inl BrokerError, say (ConnectionError BrokerError) st1)
           else
             let (ch, b2) = createChannel b1;
                 st2 = st1\<lparr>channel := Some ch, broker := b2\<rparr>
             in if fails e AssertQueue
                then (Inl BrokerError,
                      say (ConnectionError BrokerError) (st2\<lparr>broker := close_channel ch b2\<rparr>))
                else (Inr ch,
                      say ConnectionEstablished (st2\<lparr>broker := assertQueue ''user_events'' b2\<rparr>)))"

definition publishMessage ::
  "env \<Rightarrow> string \<Rightarrow> js \<Rightarrow> user_service \<Rightarrow> (error + unit) \<times> user_service" where
  "publishMessage e queueName message st =
     (case (case channel st of
              None \<Rightarrow>
                (case connectQueue e st of
                   (Inl err, st1) \<Rightarrow> (Inl err, st1)
                 | (Inr ch, st1) \<Rightarrow> (Inr ch, st1\<lparr>channel := Some ch\<rparr>))
            | Some ch \<Rightarrow> (Inr ch, st)) of
        (Inl err, st1) \<Rightarrow> (Inl err, say (ErrorPublishing err) st1)
      | (Inr ch, st1) \<Rightarrow>
          (case sendToQueue ch queueName (Json message) (broker st1) of
             Inl err \<Rightarrow> (Inl err, say (ErrorPublishing err) st1)
           | Inr b \<Rightarrow> (Inr (), say (MessageSent message) (st1\<lparr>broker := b\<rparr>))))"

text \<open>The two event objects the controllers build.\<close>

definition signup_event :: "user \<Rightarrow> js" where
  "signup_event result = JObj [(''userId'', JStr (uid result)), (''email'', JStr (uemail result)),
     (''name'', JStr (uname result)), (''event'', JStr ''user_signup'')]"

definition delete_event :: "string \<Rightarrow> js" where
  "delete_event i = JObj [(''userId'', JStr i), (''event'', JStr ''user_delete'')]"

text \<open>
  \<open>signup\<close>. The whole body is inside the \<open>try\<close>, whose \<open>catch\<close> logs any exception
  and answers 500. The three validations come first and answer 400. The rest is
  \<open>signup_valid\<close>: the two lookups (a stored email or name is a string, so a value that
  is not a string finds nothing), the hash, the creation of the user, the publication of
  the event and the 201 answer.
\<close>

definition signup_caught :: "error \<Rightarrow> user_service \<Rightarrow> response \<times> user_service" where
  "signup_caught err st =
     (\<lparr>status = 500, body = message_body ''Something went wrong''\<rparr>, say (SignupError err) st)"

definition signup_valid ::
  "env \<Rightarrow> js \<Rightarrow> js \<Rightarrow> js \<Rightarrow> user_service \<Rightarrow> response \<times> user_service" where
  "signup_valid e em pw nm st =
     (if fails e FindOneEmail then signup_caught DbError st
      else if find (\<lambda>u. JStr (uemail u) = em) (accounts st) \<noteq> None
      then (\<lparr>status = 400, body = message_body ''User with this email already exists''\<rparr>, st)
      else if fails e FindOneName then signup_caught DbError st
      else if find (\<lambda>u. JStr (uname u) = nm) (accounts st) \<noteq> None
      then (\<lparr>status = 400, body = message_body ''User with this name already exists''\<rparr>, st)
      else
        (case hash_password e pw of
           Inl err \<Rightarrow> signup_caught err st
         | Inr hashedPassword \<Rightarrow>
        (case UserModal_create e em hashedPassword nm (accounts st) of
           Inl err \<Rightarrow> signup_caught err st
         | Inr (result, us) \<Rightarrow>
             (case publishMessage e ''user_events'' (signup_event result) (st\<lparr>accounts := us\<rparr>) of
                (Inl err, st1) \<Rightarrow> signup_caught err st1
              | (Inr u, st1) \<Rightarrow>
                  (\<lparr>status = 201, body = JObj [(''result'', toJSON result)]\<rparr>, st1)))))"

definition invalid_email :: response where
  "invalid_email = \<lparr>status = 400, body = message_body ''Invalid email format''\<rparr>"

definition signup :: "env \<Rightarrow> request \<Rightarrow> user_service \<Rightarrow> response \<times> user_service" where
  "signup e req st =
     (if \<not> truthy (email req) then (invalid_email, st)
      else case includes_at (email req) of
        Inl err \<Rightarrow> signup_caught err st
      | Inr False \<Rightarrow> (invalid_email, st)
      | Inr True \<Rightarrow>
     (case isValidEmail (email req) of
        Inl err \<Rightarrow> signup_caught err st
      | Inr False \<Rightarrow> (invalid_email, st)
      | Inr True \<Rightarrow>
      if \<not> isValidName (name req)
      then (\<lparr>status = 400,
             body = message_body ''Name must be between 3 and 15 characters long''\<rparr>, st)
      else
     (case isValidPassword (password req) of
        Inl err \<Rightarrow> signup_caught err st
      | Inr False \<Rightarrow>
          (\<lparr>status = 400,
            body = message_body ''Password must be between 6 and 15 characters long, include at least one letter, one number, and one special character''\<rparr>, st)
      | Inr True \<Rightarrow> signup_valid e (email req) (password req) (name req) st)))"

text \<open>\<open>getUserById\<close>: the document found is sent as it is.\<close>

definition getUserById :: "env \<Rightarrow> string \<Rightarrow> user_service \<Rightarrow> response \<times> user_service" where
  "getUserById e i st =
     (if fails e FindById
      then (\<lparr>status = 500, body = message_body (error_message DbError)\<rparr>, st)
      else case find (\<lambda>u. uid u = i) (accounts st) of
             None \<Rightarrow> (\<lparr>status = 404, body = message_body ''User not found''\<rparr>, st)
           | Some user \<Rightarrow> (\<lparr>status = 200, body = toJSON user\<rparr>, st))"

text \<open>\<open>deleteUser\<close>: look the user up, delete, publish the event, answer.\<close>

definition delete_caught :: "error \<Rightarrow> user_service \<Rightarrow> response \<times> user_service" where
  "delete_caught err st =
     (\<lparr>status = 500, body = message_body ''Something went wrong''\<rparr>,
      say (ErrorDeletingUser err) st)"

definition deleteUser :: "env \<Rightarrow> string \<Rightarrow> user_service \<Rightarrow> response \<times> user_service" where
  "deleteUser e i st =
     (if fails e FindById then delete_caught DbError st
      else case find (\<lambda>u. uid u = i) (accounts st) of
             None \<Rightarrow> (\<lparr>status = 404, body = message_body ''User not found''\<rparr>, st)
           | Some user \<Rightarrow>
               if fails e FindByIdAndDelete then delete_caught DbError st
               else
                 (case publishMessage e ''user_events'' (delete_event i)
                         (st\<lparr>accounts := UserModal_findByIdAndDelete i (accounts st)\<rparr>) of
                    (Inl err, st1) \<Rightarrow> delete_caught err st1
                  | (Inr u, st1) \<Rightarrow>
                      (\<lparr>status = 200, body = message_body ''User deleted successfully''\<rparr>,
                       say (DeletedAndPublished i) st1)))"

text \<open>The broker connection is lost: every channel is closed. The program has no
  listener for it, so its variables keep the handles.\<close>

definition connection_lost :: "user_service \<Rightarrow> user_service" where
  "connection_lost st = st\<lparr>broker := (broker st)\<lparr>open_channels := []\<rparr>\<rparr>"

section \<open>Sample data\<close>

definition signup_alice :: js where
  "signup_alice = JObj [(''userId'', JStr ''u1''), (''email'', JStr ''a@b.com''),
     (''name'', JStr ''alice''), (''event'', JStr ''user_signup'')]"

definition delete_alice :: js where
  "delete_alice = JObj [(''userId'', JStr ''u1''), (''event'', JStr ''user_delete'')]"

definition shadow_alice :: shadow_user where
  "shadow_alice = \<lparr>sid = JStr ''u1'', semail = JStr ''a@b.com'', sname = JStr ''alice''\<rparr>"

definition post_of_alice :: post where
  "post_of_alice = \<lparr>post_title = ''hello'', post_content = ''first post'',
     post_userId = ''u1'', post_createdAt = 0\<rparr>"

definition post_service_empty :: post_service where
  "post_service_empty = \<lparr>users = [], posts = [], console = [], acked = [],
     pending = [], rejected = [], store_down = False\<rparr>"

definition post_service_alice :: post_service where
  "post_service_alice = \<lparr>users = [shadow_alice], posts = [post_of_alice], console = [],
     acked = [], pending = [], rejected = [], store_down = False\<rparr>"

text \<open>The Post Service while its document store is unreachable.\<close>

definition post_service_down :: post_service where
  "post_service_down = \<lparr>users = [], posts = [], console = [], acked = [],
     pending = [], rejected = [], store_down = True\<rparr>"

definition env_ok :: env where
  "env_ok = \<lparr>fails = (\<lambda>c. False), new_id = ''u1'', bcrypt_hash = (\<lambda>p. ''$2a$12$'' @ p)\<rparr>"

definition env_broker_down :: env where
  "env_broker_down = \<lparr>fails = (\<lambda>c. c = Connect), new_id = ''u1'',
     bcrypt_hash = (\<lambda>p. ''$2a$12$'' @ p)\<rparr>"

definition broker_empty :: broker where
  "broker_empty = \<lparr>connections = 0, channels = 0, open_channels = [], queues = Map.empty,
     consumers = []\<rparr>"

definition user_service_empty :: user_service where
  "user_service_empty = \<lparr>accounts = [], channel = None, connection = None,
     broker = broker_empty, printed = []\<rparr>"

definition request_alice :: request where
  "request_alice = \<lparr>email = JStr ''a@b.com'', password = JStr ''abc123!'',
     name = JStr ''alice''\<rparr>"


definition user_alice :: user where
  "user_alice = \<lparr>uid = ''u1'', uemail = ''a@b.com'', upassword = ''$2a$12$abc123!'',
     uname = ''alice''\<rparr>"

text \<open>The User Service after the signup of alice.\<close>

definition user_service_alice :: user_service where
  "user_service_alice = \<lparr>accounts = [user_alice], channel = Some 0, connection = Some 0,
      broker = \<lparr>connections = 1, channels = 1, open_channels = [0],
        queues = [''user_events'' \<mapsto> [Json (signup_event user_alice)]], consumers = []\<rparr>,
      printed = [ConnectionEstablished, MessageSent (signup_event user_alice)]\<rparr>"

definition post_mq_empty :: post_mq where
  "post_mq_empty = \<lparr>pchannel = None, pconnection = None, pbroker = broker_empty,
     pconsole = []\<rparr>"

section \<open>The shadow store under the handler\<close>

lemma findOneAndDelete_absent:
  "i \<notin> set (map sid us) \<Longrightarrow> UserModel_findOneAndDelete i us = us"
  by (induction us) auto

lemma findOneAndDelete_removes:
  "distinct (map sid us) \<Longrightarrow> i \<notin> set (map sid (UserModel_findOneAndDelete i us))"
  by (induction us) auto

lemma findOneAndDelete_subset:
  "set (UserModel_findOneAndDelete i us) \<subseteq> set us"
  by (induction us) auto

lemma findOneAndDelete_distinct:
  "distinct (map sid us) \<Longrightarrow> distinct (map sid (UserModel_findOneAndDelete i us))"
proof (induction us)
  case Nil
  then show ?case by simp
next
  case (Cons u us)
  have "sid u \<notin> sid ` set (UserModel_findOneAndDelete i us)"
    using Cons.prems findOneAndDelete_subset [of i us] by auto
  with Cons show ?case by auto
qed

lemma no_record_with_absent_id:
  "i \<notin> set (map sid us) \<Longrightarrow> filter (\<lambda>u. sid u = i) us = []"
  by (induction us) auto

lemma one_record_with_present_id:
  "distinct (map sid us) \<Longrightarrow> i \<in> set (map sid us) \<Longrightarrow>
   length (filter (\<lambda>u. sid u = i) us) = 1"
  by (induction us) (auto simp: no_record_with_absent_id)

lemma start_signup:
  assumes "get_prop m ''event'' = Inr (JStr ''user_signup'')"
  shows "\<exists>i e n. get_prop m ''userId'' = Inr i \<and> get_prop m ''email'' = Inr e
     \<and> get_prop m ''name'' = Inr n
     \<and> handler_start m = Awaiting (Create \<lparr>sid = i, semail = e, sname = n\<rparr>)"
  using assms by (cases m) (auto simp: handler_start_def split: option.splits)

lemma start_delete:
  assumes "get_prop m ''event'' = Inr (JStr ''user_delete'')"
  shows "\<exists>i. get_prop m ''userId'' = Inr i \<and> handler_start m = Awaiting (FindOneAndDelete i)"
  using assms by (cases m) (auto simp: handler_start_def split: option.splits)

text \<open>
  C1, as amended. Applying a \<open>user_signup\<close> event for a user id twice leaves exactly one
  shadow record with that id and no id twice, whenever the shadow store is reachable and
  holds each id at most once. The handler's promise is fulfilled both times and the
  second application leaves the store as the first left it, but it is not free of
  errors: the store refuses the second insertion with a duplicate-key error, which the
  handler catches and logs.
\<close>

theorem signup_event_applied_twice:
  assumes ev: "get_prop m ''event'' = Inr (JStr ''user_signup'')"
    and uid: "get_prop m ''userId'' = Inr (JStr i)"
    and inv: "distinct (map sid (users st))"
    and up: "\<not> store_down st"
  shows "fst (handleUserEvent m st) = Inr ()
    \<and> fst (handleUserEvent m (snd (handleUserEvent m st))) = Inr ()
    \<and> users (snd (handleUserEvent m (snd (handleUserEvent m st))))
        = users (snd (handleUserEvent m st))
    \<and> length (filter (\<lambda>u. sid u = JStr i)
        (users (snd (handleUserEvent m (snd (handleUserEvent m st)))))) = 1
    \<and> distinct (map sid (users (snd (handleUserEvent m (snd (handleUserEvent m st))))))
    \<and> console (snd (handleUserEvent m (snd (handleUserEvent m st))))
        = console (snd (handleUserEvent m st)) @ [ErrorHandlingUserEvent DuplicateKey]"
proof -
  from start_signup [OF ev] uid obtain e n where
    s: "handler_start m = Awaiting (Create \<lparr>sid = JStr i, semail = e, sname = n\<rparr>)"
    by auto
  let ?d = "\<lparr>sid = JStr i, semail = e, sname = n\<rparr>"
  let ?st1 = "handler_resume (Create ?d) st"
  have h1: "handleUserEvent m s = (Inr (), handler_resume (Create ?d) s)" for s
    by (simp add: handleUserEvent_def s)
  have in1: "JStr i \<in> set (map sid (users ?st1))"
    using up by (auto simp: UserModel_create_def log_entry_def)
  have d1: "distinct (map sid (users ?st1))"
    using inv up by (auto simp: UserModel_create_def log_entry_def)
  have up1: "\<not> store_down ?st1"
    using up by (auto simp: UserModel_create_def log_entry_def)
  have same: "users (handler_resume (Create ?d) ?st1) = users ?st1"
    using in1 by (simp add: UserModel_create_def log_entry_def)
  have logged: "console (handler_resume (Create ?d) ?st1)
      = console ?st1 @ [ErrorHandlingUserEvent DuplicateKey]"
    using in1 up1 by (simp add: UserModel_create_def log_entry_def)
  show ?thesis
    unfolding h1 fst_conv snd_conv same logged
    using one_record_with_present_id [OF d1 in1] d1 by simp
qed

theorem signup_event_applied_twice_witness:
  "get_prop signup_alice ''event'' = Inr (JStr ''user_signup'')
   \<and> get_prop signup_alice ''userId'' = Inr (JStr ''u1'')
   \<and> distinct (map sid (users post_service_empty))
   \<and> \<not> store_down post_service_empty
   \<and> fst (handleUserEvent signup_alice
        (snd (handleUserEvent signup_alice post_service_empty))) = Inr ()
   \<and> users (snd (handleUserEvent signup_alice
        (snd (handleUserEvent signup_alice post_service_empty)))) = [shadow_alice]
   \<and> console (snd (handleUserEvent signup_alice
        (snd (handleUserEvent signup_alice post_service_empty))))
       = [UserCreated (JStr ''alice''), ErrorHandlingUserEvent DuplicateKey]"
proof -
  have ev: "get_prop signup_alice ''event'' = Inr (JStr ''user_signup'')"
    by (simp add: signup_alice_def)
  have uid: "get_prop signup_alice ''userId'' = Inr (JStr ''u1'')"
    by (simp add: signup_alice_def)
  have inv: "distinct (map sid (users post_service_empty))"
    by (simp add: post_service_empty_def)
  have up: "\<not> store_down post_service_empty"
    by (simp add: post_service_empty_def)
  have first: "users (snd (handleUserEvent signup_alice post_service_empty)) = [shadow_alice]
      \<and> console (snd (handleUserEvent signup_alice post_service_empty))
          = [UserCreated (JStr ''alice'')]"
    by (simp add: handleUserEvent_def handler_start_def signup_alice_def
        post_service_empty_def shadow_alice_def UserModel_create_def log_entry_def)
  from signup_event_applied_twice [OF ev uid inv up] first ev uid inv up show ?thesis
    by simp
qed

text \<open>
  C1 as stated fails. The second application of the same \<open>user_signup\<close> event to the
  empty, reachable store runs into the duplicate-key error of the store: the handler
  logs it as an error of handling the event.
\<close>

theorem duplicate_signup_is_an_error_counterexample:
  "handleUserEvent signup_alice (snd (handleUserEvent signup_alice post_service_empty))
     = (Inr (), \<lparr>users = [shadow_alice], posts = [],
         console = [UserCreated (JStr ''alice''), ErrorHandlingUserEvent DuplicateKey],
         acked = [], pending = [], rejected = [], store_down = False\<rparr>)"
  by (simp add: handleUserEvent_def handler_start_def signup_alice_def
      post_service_empty_def shadow_alice_def UserModel_create_def log_entry_def)

text \<open>
  C5. Applying a \<open>user_delete\<close> event is idempotent. Whenever the shadow store is
  reachable and holds each id at most once, the handler's promise is fulfilled and no
  record with that id remains;
  when no record with that id was stored, the store is unchanged and the only line
  logged is the deletion line, not an error.
\<close>

theorem delete_event_idempotent:
  assumes ev: "get_prop m ''event'' = Inr (JStr ''user_delete'')"
    and uid: "get_prop m ''userId'' = Inr (JStr i)"
    and inv: "distinct (map sid (users st))"
    and up: "\<not> store_down st"
  shows "fst (handleUserEvent m st) = Inr ()
    \<and> JStr i \<notin> set (map sid (users (snd (handleUserEvent m st))))
    \<and> (JStr i \<notin> set (map sid (users st)) \<longrightarrow>
         users (snd (handleUserEvent m st)) = users st
       \<and> console (snd (handleUserEvent m st)) = console st @ [UserDeleted (JStr i)])"
proof -
  from start_delete [OF ev] uid
  have s: "handler_start m = Awaiting (FindOneAndDelete (JStr i))"
    by auto
  have h: "handleUserEvent m st = (Inr (), handler_resume (FindOneAndDelete (JStr i)) st)"
    by (simp add: handleUserEvent_def s)
  show ?thesis
    unfolding h using findOneAndDelete_removes [OF inv, of "JStr i"] up
    by (simp add: log_entry_def findOneAndDelete_absent)
qed

theorem delete_event_idempotent_witness:
  "get_prop delete_alice ''event'' = Inr (JStr ''user_delete'')
   \<and> get_prop delete_alice ''userId'' = Inr (JStr ''u1'')
   \<and> distinct (map sid (users post_service_empty))
   \<and> \<not> store_down post_service_empty
   \<and> JStr ''u1'' \<notin> set (map sid (users post_service_empty))
   \<and> fst (handleUserEvent delete_alice post_service_empty) = Inr ()
   \<and> users (snd (handleUserEvent delete_alice post_service_empty)) = []
   \<and> console (snd (handleUserEvent delete_alice post_service_empty))
       = [UserDeleted (JStr ''u1'')]"
proof -
  have ev: "get_prop delete_alice ''event'' = Inr (JStr ''user_delete'')"
    by (simp add: delete_alice_def)
  have uid: "get_prop delete_alice ''userId'' = Inr (JStr ''u1'')"
    by (simp add: delete_alice_def)
  have inv: "distinct (map sid (users post_service_empty))"
    by (simp add: post_service_empty_def)
  have absent: "JStr ''u1'' \<notin> set (map sid (users post_service_empty))"
    by (simp add: post_service_empty_def)
  have up: "\<not> store_down post_service_empty"
    by (simp add: post_service_empty_def)
  from delete_event_idempotent [OF ev uid inv up] absent ev uid inv up show ?thesis
    by (simp add: post_service_empty_def)
qed

section \<open>The consumer and the posts\<close>

lemma posts_handler_resume: "posts (handler_resume op st) = posts st"
  by (cases op) (auto simp: log_entry_def split: sum.splits)

lemma posts_resume_all: "posts (resume_all ops st) = posts st"
  by (induction ops arbitrary: st) (simp_all add: posts_handler_resume)

lemma posts_settle: "posts (settle st) = posts st"
  by (simp add: settle_def posts_resume_all)

lemma posts_handler_call: "posts (handler_call c st) = posts st"
  by (simp add: handler_call_def split: started.splits)

lemma posts_on_message: "on_message st d = Inr st' \<Longrightarrow> posts st' = posts st"
  by (cases d) (auto simp: ack_def posts_handler_call log_entry_def split: sum.splits)

lemma posts_deliver: "deliver st ms = Inr st' \<Longrightarrow> posts st' = posts st"
proof (induction ms arbitrary: st)
  case Nil
  then show ?case by simp
next
  case (Cons m ms)
  then obtain s1 where a: "on_message st (Some m) = Inr s1"
    and b: "deliver (settle s1) ms = Inr st'"
    by (auto split: sum.splits)
  from Cons.IH [OF b] posts_settle [of s1] posts_on_message [OF a] show ?case by simp
qed

text \<open>
  C9. The event consumer never modifies the posts: the handler run to completion on any
  payload, the callback on any delivery, the completion of the suspended handlers, and
  the subscription on any sequence of deliveries all leave the list of posts as it was.
  In particular a \<open>user_delete\<close> event leaves the posts of that user in place.
\<close>

theorem consumer_never_modifies_posts:
  "posts (snd (handleUserEvent m st)) = posts st
   \<and> (\<forall>st'. on_message st d = Inr st' \<longrightarrow> posts st' = posts st \<and> posts (settle st') = posts st)
   \<and> (\<forall>st'. deliver st ms = Inr st' \<longrightarrow> posts st' = posts st)"
  by (auto simp: handleUserEvent_def posts_handler_resume posts_settle
      dest: posts_on_message posts_deliver split: started.splits)

theorem consumer_never_modifies_posts_witness:
  "\<not> isl (on_message post_service_alice (Some \<lparr>tag = 1, parsed = Inr delete_alice\<rparr>))
   \<and> \<not> isl (deliver post_service_alice [\<lparr>tag = 1, parsed = Inr delete_alice\<rparr>])
   \<and> users (projr (deliver post_service_alice [\<lparr>tag = 1, parsed = Inr delete_alice\<rparr>])) = []
   \<and> posts (projr (deliver post_service_alice [\<lparr>tag = 1, parsed = Inr delete_alice\<rparr>]))
       = [post_of_alice]
   \<and> posts (snd (handleUserEvent delete_alice post_service_alice)) = [post_of_alice]"
proof -
  let ?m = "\<lparr>tag = 1, parsed = Inr delete_alice\<rparr>"
  have run: "deliver post_service_alice [?m] = Inr
      \<lparr>users = [], posts = [post_of_alice],
       console = [Received delete_alice, UserDeleted (JStr ''u1'')],
       acked = [1], pending = [], rejected = [], store_down = False\<rparr>"
    by (simp add: post_service_alice_def delete_alice_def handler_call_def handler_start_def
        ack_def log_entry_def settle_def shadow_alice_def)
  from consumer_never_modifies_posts [of delete_alice post_service_alice "Some ?m" "[?m]"] run
  show ?thesis
    by (simp add: post_service_alice_def)
qed

section \<open>Acknowledgement and malformed deliveries\<close>

lemma acked_handler_resume: "acked (handler_resume op st) = acked st"
  by (cases op) (auto simp: log_entry_def split: sum.splits)

lemma acked_resume_all: "acked (resume_all ops st) = acked st"
  by (induction ops arbitrary: st) (simp_all add: acked_handler_resume)

lemma acked_settle: "acked (settle st) = acked st"
  by (simp add: settle_def acked_resume_all)

lemma acked_handler_call: "acked (handler_call c st) = acked st"
  by (simp add: handler_call_def split: started.splits)

text \<open>
  C2, as amended. A delivery whose body parses is acknowledged exactly once by the
  callback, after the call of the handler, and the acknowledgement stands whatever the
  handler's store operation then does: when the store is unreachable or refuses the
  insertion, the handler logs the error, the store is unchanged and the delivery
  remains acknowledged, so it is not delivered again.
\<close>

theorem ack_follows_handler_call:
  assumes "parsed m = Inr c"
  shows "\<exists>st'. on_message st (Some m) = Inr st'
    \<and> acked st' = acked st @ [tag m]
    \<and> acked (settle st') = acked st @ [tag m]
    \<and> (\<forall>op. pending st = [] \<and> handler_start c = Awaiting op
            \<and> (store_down st \<or> (\<exists>d. op = Create d \<and> sid d \<in> set (map sid (users st)))) \<longrightarrow>
          users (settle st') = users st
        \<and> (\<exists>e. console (settle st') = console st @ [Received c, ErrorHandlingUserEvent e]))"
proof -
  let ?st' = "ack m (handler_call c (log_entry (Received c) st))"
  have 1: "on_message st (Some m) = Inr ?st'"
    using assms by simp
  have 2: "acked ?st' = acked st @ [tag m]"
    by (simp add: ack_def acked_handler_call log_entry_def)
  have 3: "acked (settle ?st') = acked st @ [tag m]"
    by (simp add: acked_settle 2)
  have 4: "users (settle ?st') = users st
        \<and> (\<exists>e. console (settle ?st') = console st @ [Received c, ErrorHandlingUserEvent e])"
    if "pending st = []" "handler_start c = Awaiting op"
      "store_down st \<or> (\<exists>d. op = Create d \<and> sid d \<in> set (map sid (users st)))" for op
  proof (cases "store_down st")
    case True
    with that show ?thesis
      by (cases op) (simp_all add: settle_def ack_def handler_call_def log_entry_def)
  next
    case False
    with that obtain d where "op = Create d" "sid d \<in> set (map sid (users st))"
      by auto
    with that False show ?thesis
      by (simp add: settle_def ack_def handler_call_def log_entry_def UserModel_create_def)
  qed
  from 1 2 3 4 show ?thesis by blast
qed

theorem ack_follows_handler_call_witness:
  "parsed \<lparr>tag = 7, parsed = Inr signup_alice\<rparr> = Inr signup_alice
   \<and> pending post_service_down = []
   \<and> handler_start signup_alice = Awaiting (Create shadow_alice)
   \<and> store_down post_service_down
   \<and> acked (settle (projr (on_message post_service_down
        (Some \<lparr>tag = 7, parsed = Inr signup_alice\<rparr>)))) = [7]
   \<and> users (settle (projr (on_message post_service_down
        (Some \<lparr>tag = 7, parsed = Inr signup_alice\<rparr>)))) = []"
proof -
  have p: "parsed \<lparr>tag = 7, parsed = Inr signup_alice\<rparr> = Inr signup_alice"
    by simp
  have h: "pending post_service_down = []
      \<and> handler_start signup_alice = Awaiting (Create shadow_alice)
      \<and> store_down post_service_down"
    by (simp add: post_service_down_def handler_start_def signup_alice_def shadow_alice_def)
  have a: "acked post_service_down = []" "users post_service_down = []"
    by (simp_all add: post_service_down_def)
  from ack_follows_handler_call [OF p, of post_service_down] obtain st' where
    "on_message post_service_down (Some \<lparr>tag = 7, parsed = Inr signup_alice\<rparr>) = Inr st'"
    "acked (settle st') = acked post_service_down @ [7]"
    "pending post_service_down = [] \<and> handler_start signup_alice = Awaiting (Create shadow_alice)
       \<and> (store_down post_service_down
           \<or> (\<exists>d. Create shadow_alice = Create d
                 \<and> sid d \<in> set (map sid (users post_service_down)))) \<longrightarrow>
     users (settle st') = users post_service_down"
    by auto
  with h a p show ?thesis
    by simp
qed

text \<open>
  C2 as stated fails. A first \<open>user_signup\<close> delivery is acknowledged while its handler
  is still suspended and the store still empty. While the store is unreachable, the
  delivery is acknowledged in the same way; the handler then fails, the failure is
  only logged, and the user never reaches the shadow store.
\<close>

theorem ack_before_completion_counterexample:
  "on_message post_service_empty (Some \<lparr>tag = 7, parsed = Inr signup_alice\<rparr>)
     = Inr \<lparr>users = [], posts = [], console = [Received signup_alice], acked = [7],
            pending = [Create shadow_alice], rejected = [], store_down = False\<rparr>
   \<and> on_message post_service_down (Some \<lparr>tag = 8, parsed = Inr signup_alice\<rparr>)
     = Inr \<lparr>users = [], posts = [], console = [Received signup_alice], acked = [8],
            pending = [Create shadow_alice], rejected = [], store_down = True\<rparr>
   \<and> settle \<lparr>users = [], posts = [], console = [Received signup_alice], acked = [8],
            pending = [Create shadow_alice], rejected = [], store_down = True\<rparr>
     = \<lparr>users = [], posts = [],
        console = [Received signup_alice, ErrorHandlingUserEvent DbError],
        acked = [8], pending = [], rejected = [], store_down = True\<rparr>"
  by (simp add: post_service_empty_def post_service_down_def signup_alice_def shadow_alice_def
      handler_call_def handler_start_def ack_def log_entry_def settle_def)

text \<open>
  C4. A delivery whose body is not JSON: the exception of \<open>JSON.parse\<close> leaves the
  callback before anything is logged or acknowledged, and the run of the subscription
  ends there with the next, valid delivery unhandled.
\<close>

theorem malformed_body_escapes_callback:
  "on_message post_service_empty (Some \<lparr>tag = 1, parsed = Inl SyntaxError\<rparr>) = Inl SyntaxError
   \<and> deliver post_service_empty
       [\<lparr>tag = 1, parsed = Inl SyntaxError\<rparr>, \<lparr>tag = 2, parsed = Inr signup_alice\<rparr>]
     = Inl (SyntaxError, [\<lparr>tag = 2, parsed = Inr signup_alice\<rparr>])"
  by simp

text \<open>
  A payload that parses and has no known \<open>event\<close> tag is logged and acknowledged, the
  store is untouched, and the deliveries after it are handled.
\<close>

lemma unknown_event_dropped:
  assumes "parsed m = Inr c" and "handler_start c = Finished"
  shows "on_message st (Some m) = Inr (st\<lparr>console := console st @ [Received c],
     acked := acked st @ [tag m]\<rparr>)"
  using assms by (simp add: handler_call_def ack_def log_entry_def)

lemma unknown_tag_finishes:
  assumes "get_prop c ''event'' = Inr ev" and "ev \<noteq> JStr ''user_signup''" and "ev \<noteq> JStr ''user_delete''"
  shows "handler_start c = Finished"
  using assms by (cases c) (auto simp: handler_start_def split: option.splits)

lemma unknown_then_valid:
  "deliver post_service_empty
     [\<lparr>tag = 1, parsed = Inr (JObj [(''userId'', JStr ''u1''), (''event'', JStr ''user_renamed'')])\<rparr>,
      \<lparr>tag = 2, parsed = Inr (JObj [(''userId'', JStr ''u1'')])\<rparr>,
      \<lparr>tag = 3, parsed = Inr signup_alice\<rparr>]
   = Inr \<lparr>users = [shadow_alice], posts = [],
       console = [Received (JObj [(''userId'', JStr ''u1''), (''event'', JStr ''user_renamed'')]),
                  Received (JObj [(''userId'', JStr ''u1'')]),
                  Received signup_alice, UserCreated (JStr ''alice'')],
       acked = [1, 2, 3], pending = [], rejected = [], store_down = False\<rparr>"
  by (simp add: post_service_empty_def signup_alice_def shadow_alice_def
      handler_call_def handler_start_def ack_def log_entry_def settle_def UserModel_create_def)

section \<open>The publisher\<close>

lemma accounts_say [simp]: "accounts (say l st) = accounts st"
  by (simp add: say_def)

lemma broker_say [simp]: "broker (say l st) = broker st"
  by (simp add: say_def)

lemma channel_say [simp]: "channel (say l st) = channel st"
  by (simp add: say_def)

lemma contents_assertQueue: "queue_contents (assertQueue q b) q' = queue_contents b q'"
  by (simp add: queue_contents_def assertQueue_def split: option.splits)

lemma contents_close_channel: "queue_contents (close_channel c b) q = queue_contents b q"
  by (simp add: queue_contents_def close_channel_def)

lemma contents_connect: "queue_contents (snd (amqp_connect b)) q = queue_contents b q"
  by (simp add: queue_contents_def amqp_connect_def)

lemma contents_createChannel: "queue_contents (snd (createChannel b)) q = queue_contents b q"
  by (simp add: queue_contents_def createChannel_def)

lemma connectQueue_frame:
  "accounts (snd (connectQueue e st)) = accounts st
   \<and> queue_contents (broker (snd (connectQueue e st))) q = queue_contents (broker st) q"
  by (simp add: connectQueue_def Let_def split_beta contents_assertQueue contents_close_channel
      contents_connect contents_createChannel)

lemma contents_sendToQueue:
  "sendToQueue c q buf b = Inr b' \<Longrightarrow>
   \<exists>new. (new = [] \<or> new = [buf]) \<and>
     (\<forall>q'. queue_contents b' q' = queue_contents b q' @ (if q' = q then new else []))"
  by (auto simp: sendToQueue_def queue_contents_def split: if_splits option.splits)

lemma publish_accounts: "accounts (snd (publishMessage e q m st)) = accounts st"
  using connectQueue_frame [of e st]
  by (auto simp: publishMessage_def split: option.splits prod.splits sum.splits)

lemma publish_contents:
  "\<exists>new. (new = [] \<or> new = [Json m]) \<and>
     (\<forall>q'. queue_contents (broker (snd (publishMessage e q m st))) q'
        = queue_contents (broker st) q' @ (if q' = q then new else []))"
proof (cases "channel st")
  case None
  show ?thesis
  proof (cases "connectQueue e st")
    case (Pair r st1)
    have fr: "\<And>q'. queue_contents (broker st1) q' = queue_contents (broker st) q'"
      using connectQueue_frame [of e st] Pair by simp
    show ?thesis
    proof (cases r)
      case (Inl err)
      with None Pair fr show ?thesis
        by (intro exI [of _ "[]"]) (simp add: publishMessage_def)
    next
      case (Inr ch)
      show ?thesis
      proof (cases "sendToQueue ch q (Json m) (broker st1)")
        case (Inl err)
        with None Pair Inr fr show ?thesis
          by (intro exI [of _ "[]"]) (simp add: publishMessage_def)
      next
        case (Inr b')
        from contents_sendToQueue [OF this] obtain new where
          "new = [] \<or> new = [Json m]"
          "\<And>q'. queue_contents b' q' = queue_contents (broker st1) q' @ (if q' = q then new else [])"
          by blast
        with None Pair \<open>r = Inr ch\<close> Inr fr show ?thesis
          by (intro exI [of _ new]) (simp add: publishMessage_def)
      qed
    qed
  qed
next
  case (Some ch)
  show ?thesis
  proof (cases "sendToQueue ch q (Json m) (broker st)")
    case (Inl err)
    with Some show ?thesis
      by (intro exI [of _ "[]"]) (simp add: publishMessage_def)
  next
    case (Inr b')
    from contents_sendToQueue [OF this] obtain new where
      "new = [] \<or> new = [Json m]"
      "\<And>q'. queue_contents b' q' = queue_contents (broker st) q' @ (if q' = q then new else [])"
      by blast
    with Some Inr show ?thesis
      by (intro exI [of _ new]) (simp add: publishMessage_def)
  qed
qed

lemma create_result:
  "UserModal_create e em pw nm us = Inr (u, us') \<Longrightarrow>
   us' = us @ [u] \<and> em = JStr (uemail u) \<and> nm = JStr (uname u)
   \<and> uid u = new_id e \<and> upassword u = pw"
  by (auto simp: UserModal_create_def Let_def split: if_splits js.splits)

lemma valid_sample:
  "isValidEmail (JStr ''a@b.com'') = Inr True \<and> isValidPassword (JStr ''abc123!'') = Inr True
   \<and> isValidName (JStr ''alice'')"
  by (simp add: isValidEmail_def emailPattern_def email_char_def is_space_def
      isValidPassword_def passwordPattern_def lookahead_def dot_def is_letter_def is_digit_def
      is_special_def is_word_def isValidName_def)

lemma signup_alice_run:
  "signup env_ok request_alice user_service_empty =
    (\<lparr>status = 201, body = JObj [(''result'', toJSON user_alice)]\<rparr>,
     \<lparr>accounts = [user_alice], channel = Some 0, connection = Some 0,
      broker = \<lparr>connections = 1, channels = 1, open_channels = [0],
        queues = [''user_events'' \<mapsto> [Json (signup_event user_alice)]], consumers = []\<rparr>,
      printed = [ConnectionEstablished, MessageSent (signup_event user_alice)]\<rparr>)"
  using valid_sample
  by (simp add: signup_def request_alice_def signup_valid_def hash_password_def env_ok_def
     user_service_empty_def UserModal_create_def publishMessage_def connectQueue_def amqp_connect_def createChannel_def broker_empty_def
     assertQueue_def sendToQueue_def say_def user_alice_def Let_def)

lemma signup_broker_down_run:
  "signup env_broker_down request_alice user_service_empty =
    (\<lparr>status = 500, body = message_body ''Something went wrong''\<rparr>,
     \<lparr>accounts = [user_alice], channel = None, connection = None, broker = broker_empty,
      printed = [ConnectionError BrokerError, ErrorPublishing BrokerError, SignupError BrokerError]\<rparr>)"
  using valid_sample
  by (simp add: signup_def request_alice_def signup_valid_def hash_password_def env_broker_down_def
     user_service_empty_def UserModal_create_def publishMessage_def connectQueue_def
     say_def user_alice_def signup_caught_def Let_def)

lemma delete_after_connection_lost_run:
  "deleteUser env_ok ''u1'' (connection_lost user_service_alice) =
    (\<lparr>status = 500, body = message_body ''Something went wrong''\<rparr>,
     \<lparr>accounts = [], channel = Some 0, connection = Some 0,
      broker = \<lparr>connections = 1, channels = 1, open_channels = [],
        queues = [''user_events'' \<mapsto> [Json (signup_event user_alice)]], consumers = []\<rparr>,
      printed = [ConnectionEstablished, MessageSent (signup_event user_alice),
        ErrorPublishing ChannelClosed, ErrorDeletingUser ChannelClosed]\<rparr>)"
  by (simp add: deleteUser_def env_ok_def connection_lost_def user_service_alice_def user_alice_def
     publishMessage_def sendToQueue_def say_def delete_caught_def)

lemma subscribe_run:
  "pbroker (consumeMessages (\<lambda>c. False) post_mq_empty)
    = \<lparr>connections = 1, channels = 1, open_channels = [0],
       queues = [''user_events'' \<mapsto> []], consumers = [(0, ''user_events'')]\<rparr>"
  by (simp add: consumeMessages_def post_connectQueue_def post_mq_empty_def broker_empty_def
      amqp_connect_def createChannel_def assertQueue_def channel_consume_def Let_def)

section \<open>Mutation first, publication second\<close>

lemma signup_no_write:
  "accounts (snd (signup_caught err st)) = accounts st \<and> broker (snd (signup_caught err st)) = broker st"
  by (simp add: signup_caught_def)

lemma signup_valid_cases:
  "(accounts (snd (signup_valid e em pw nm st)) = accounts st
      \<and> broker (snd (signup_valid e em pw nm st)) = broker st)
   \<or> (\<exists>u. em = JStr (uemail u) \<and> nm = JStr (uname u)
        \<and> accounts (snd (signup_valid e em pw nm st)) = accounts st @ [u]
        \<and> (case fst (publishMessage e ''user_events'' (signup_event u)
                       (st\<lparr>accounts := accounts st @ [u]\<rparr>)) of
              Inl err \<Rightarrow>
                signup_valid e em pw nm st =
                  (\<lparr>status = 500, body = message_body ''Something went wrong''\<rparr>,
                   say (SignupError err)
                     (snd (publishMessage e ''user_events'' (signup_event u)
                        (st\<lparr>accounts := accounts st @ [u]\<rparr>))))
            | Inr ok \<Rightarrow>
                signup_valid e em pw nm st =
                  (\<lparr>status = 201, body = JObj [(''result'', toJSON u)]\<rparr>,
                   snd (publishMessage e ''user_events'' (signup_event u)
                        (st\<lparr>accounts := accounts st @ [u]\<rparr>)))))"
proof (cases "fails e FindOneEmail \<or> find (\<lambda>u. JStr (uemail u) = em) (accounts st) \<noteq> None
    \<or> fails e FindOneName \<or> find (\<lambda>u. JStr (uname u) = nm) (accounts st) \<noteq> None")
  case True
  then show ?thesis
    by (auto simp: signup_valid_def signup_caught_def)
next
  case False
  show ?thesis
  proof (cases "hash_password e pw")
    case (Inl err)
    with False show ?thesis
      by (auto simp: signup_valid_def signup_caught_def)
  next
    case hashed: (Inr h)
    show ?thesis
    proof (cases "UserModal_create e em h nm (accounts st)")
      case (Inl err)
      with False hashed show ?thesis
        by (auto simp: signup_valid_def signup_caught_def)
    next
      case (Inr r)
      obtain u us where r: "r = (u, us)" by (cases r)
      from create_result [OF Inr [unfolded r]]
      have us: "us = accounts st @ [u]" and u: "em = JStr (uemail u)" "nm = JStr (uname u)"
        by auto
      let ?p = "publishMessage e ''user_events'' (signup_event u)
          (st\<lparr>accounts := accounts st @ [u]\<rparr>)"
      have sv: "signup_valid e em pw nm st =
          (case ?p of (Inl err, st1) \<Rightarrow> signup_caught err st1
            | (Inr ok, st1) \<Rightarrow> (\<lparr>status = 201, body = JObj [(''result'', toJSON u)]\<rparr>, st1))"
        using False hashed Inr r us by (simp add: signup_valid_def)
      have acc: "accounts (snd ?p) = accounts st @ [u]"
        by (simp add: publish_accounts)
      have a: "accounts (snd (signup_valid e em pw nm st)) = accounts st @ [u]"
        unfolding sv using acc
        by (cases ?p) (auto simp: signup_caught_def split: sum.splits)
      have b: "case fst ?p of
          Inl err \<Rightarrow> signup_valid e em pw nm st =
             (\<lparr>status = 500, body = message_body ''Something went wrong''\<rparr>,
              say (SignupError err) (snd ?p))
        | Inr ok \<Rightarrow> signup_valid e em pw nm st =
             (\<lparr>status = 201, body = JObj [(''result'', toJSON u)]\<rparr>, snd ?p)"
        unfolding sv by (cases ?p) (auto simp: signup_caught_def split: sum.splits)
      from a b u show ?thesis
        by (intro disjI2 exI [of _ u] conjI)
    qed
  qed
qed

lemma deleteUser_cases:
  "(accounts (snd (deleteUser e i st)) = accounts st \<and> broker (snd (deleteUser e i st)) = broker st)
   \<or> (find (\<lambda>u. uid u = i) (accounts st) \<noteq> None
      \<and> accounts (snd (deleteUser e i st)) = UserModal_findByIdAndDelete i (accounts st)
      \<and> (case fst (publishMessage e ''user_events'' (delete_event i)
                     (st\<lparr>accounts := UserModal_findByIdAndDelete i (accounts st)\<rparr>)) of
            Inl err \<Rightarrow>
              deleteUser e i st =
                (\<lparr>status = 500, body = message_body ''Something went wrong''\<rparr>,
                 say (ErrorDeletingUser err)
                   (snd (publishMessage e ''user_events'' (delete_event i)
                      (st\<lparr>accounts := UserModal_findByIdAndDelete i (accounts st)\<rparr>))))
          | Inr ok \<Rightarrow>
              deleteUser e i st =
                (\<lparr>status = 200, body = message_body ''User deleted successfully''\<rparr>,
                 say (DeletedAndPublished i)
                   (snd (publishMessage e ''user_events'' (delete_event i)
                      (st\<lparr>accounts := UserModal_findByIdAndDelete i (accounts st)\<rparr>))))))"
proof (cases "fails e FindById \<or> find (\<lambda>u. uid u = i) (accounts st) = None
    \<or> fails e FindByIdAndDelete")
  case True
  then show ?thesis
    by (auto simp: deleteUser_def delete_caught_def split: option.splits)
next
  case False
  let ?p = "publishMessage e ''user_events'' (delete_event i)
     (st\<lparr>accounts := UserModal_findByIdAndDelete i (accounts st)\<rparr>)"
  have dv: "deleteUser e i st =
      (case ?p of (Inl err, st1) \<Rightarrow> delete_caught err st1
        | (Inr ok, st1) \<Rightarrow> (\<lparr>status = 200, body = message_body ''User deleted successfully''\<rparr>,
                       say (DeletedAndPublished i) st1))"
    using False by (auto simp: deleteUser_def split: option.splits)
  have acc: "accounts (snd ?p) = UserModal_findByIdAndDelete i (accounts st)"
    by (simp add: publish_accounts)
  have a: "accounts (snd (deleteUser e i st)) = UserModal_findByIdAndDelete i (accounts st)"
    unfolding dv using acc
    by (cases ?p) (auto simp: delete_caught_def split: sum.splits)
  have b: "case fst ?p of
      Inl err \<Rightarrow> deleteUser e i st =
         (\<lparr>status = 500, body = message_body ''Something went wrong''\<rparr>,
          say (ErrorDeletingUser err) (snd ?p))
    | Inr ok \<Rightarrow> deleteUser e i st =
         (\<lparr>status = 200, body = message_body ''User deleted successfully''\<rparr>,
          say (DeletedAndPublished i) (snd ?p))"
    unfolding dv by (cases ?p) (auto simp: delete_caught_def split: sum.splits)
  have c: "find (\<lambda>u. uid u = i) (accounts st) \<noteq> None"
    using False by simp
  from a b c show ?thesis
    by (intro disjI2 conjI)
qed

lemma signup_reaches_valid:
  "signup e req st = signup_valid e (email req) (password req) (name req) st
   \<or> (accounts (snd (signup e req st)) = accounts st \<and> broker (snd (signup e req st)) = broker st)"
  by (auto simp: signup_def signup_caught_def split: sum.splits bool.splits)

lemma signup_cases:
  "(accounts (snd (signup e req st)) = accounts st \<and> broker (snd (signup e req st)) = broker st)
   \<or> (\<exists>u. email req = JStr (uemail u) \<and> name req = JStr (uname u)
        \<and> accounts (snd (signup e req st)) = accounts st @ [u]
        \<and> (case fst (publishMessage e ''user_events'' (signup_event u)
                       (st\<lparr>accounts := accounts st @ [u]\<rparr>)) of
              Inl err \<Rightarrow>
                signup e req st =
                  (\<lparr>status = 500, body = message_body ''Something went wrong''\<rparr>,
                   say (SignupError err)
                     (snd (publishMessage e ''user_events'' (signup_event u)
                        (st\<lparr>accounts := accounts st @ [u]\<rparr>))))
            | Inr ok \<Rightarrow>
                signup e req st =
                  (\<lparr>status = 201, body = JObj [(''result'', toJSON u)]\<rparr>,
                   snd (publishMessage e ''user_events'' (signup_event u)
                        (st\<lparr>accounts := accounts st @ [u]\<rparr>)))))"
  using signup_reaches_valid [of e req st]
proof
  assume v: "signup e req st = signup_valid e (email req) (password req) (name req) st"
  from signup_valid_cases [of e "email req" "password req" "name req" st]
  show ?thesis
    unfolding v .
next
  assume "accounts (snd (signup e req st)) = accounts st
    \<and> broker (snd (signup e req st)) = broker st"
  then show ?thesis
    by (rule disjI1)
qed

text \<open>
  C3. \<open>signup\<close> and \<open>deleteUser\<close> publish only from a state in which the user store
  already holds the mutation. Either the store and the broker are as before (nothing was
  written, nothing was published), or the user has been created (deleted) and the event
  is published from the state that has the change; when that publication fails, the
  answer is the generic 500 and the user stays created (deleted).
\<close>

theorem publish_only_after_commit:
  "((accounts (snd (signup e req st)) = accounts st \<and> broker (snd (signup e req st)) = broker st)
    \<or> (\<exists>u. email req = JStr (uemail u) \<and> name req = JStr (uname u)
        \<and> accounts (snd (signup e req st)) = accounts st @ [u]
        \<and> (case fst (publishMessage e ''user_events'' (signup_event u)
                       (st\<lparr>accounts := accounts st @ [u]\<rparr>)) of
              Inl err \<Rightarrow>
                signup e req st =
                  (\<lparr>status = 500, body = message_body ''Something went wrong''\<rparr>,
                   say (SignupError err)
                     (snd (publishMessage e ''user_events'' (signup_event u)
                        (st\<lparr>accounts := accounts st @ [u]\<rparr>))))
            | Inr ok \<Rightarrow>
                signup e req st =
                  (\<lparr>status = 201, body = JObj [(''result'', toJSON u)]\<rparr>,
                   snd (publishMessage e ''user_events'' (signup_event u)
                        (st\<lparr>accounts := accounts st @ [u]\<rparr>))))))
   \<and> ((accounts (snd (deleteUser e i st)) = accounts st \<and> broker (snd (deleteUser e i st)) = broker st)
    \<or> (find (\<lambda>u. uid u = i) (accounts st) \<noteq> None
      \<and> accounts (snd (deleteUser e i st)) = UserModal_findByIdAndDelete i (accounts st)
      \<and> (case fst (publishMessage e ''user_events'' (delete_event i)
                     (st\<lparr>accounts := UserModal_findByIdAndDelete i (accounts st)\<rparr>)) of
            Inl err \<Rightarrow>
              deleteUser e i st =
                (\<lparr>status = 500, body = message_body ''Something went wrong''\<rparr>,
                 say (ErrorDeletingUser err)
                   (snd (publishMessage e ''user_events'' (delete_event i)
                      (st\<lparr>accounts := UserModal_findByIdAndDelete i (accounts st)\<rparr>))))
          | Inr ok \<Rightarrow>
              deleteUser e i st =
                (\<lparr>status = 200, body = message_body ''User deleted successfully''\<rparr>,
                 say (DeletedAndPublished i)
                   (snd (publishMessage e ''user_events'' (delete_event i)
                      (st\<lparr>accounts := UserModal_findByIdAndDelete i (accounts st)\<rparr>)))))))"
  using signup_cases [of e req st] deleteUser_cases [of e i st] by (rule conjI)

theorem publish_only_after_commit_witness:
  "fst (signup env_broker_down request_alice user_service_empty)
     = \<lparr>status = 500, body = message_body ''Something went wrong''\<rparr>
   \<and> accounts (snd (signup env_broker_down request_alice user_service_empty)) = [user_alice]
   \<and> fst (publishMessage env_broker_down ''user_events'' (signup_event user_alice)
        (user_service_empty\<lparr>accounts := [user_alice]\<rparr>)) = Inl BrokerError
   \<and> fst (deleteUser env_ok ''u1'' (connection_lost user_service_alice))
     = \<lparr>status = 500, body = message_body ''Something went wrong''\<rparr>
   \<and> find (\<lambda>u. uid u = ''u1'') (accounts (connection_lost user_service_alice)) \<noteq> None
   \<and> accounts (snd (deleteUser env_ok ''u1'' (connection_lost user_service_alice))) = []"
proof -
  have p: "fst (publishMessage env_broker_down ''user_events'' (signup_event user_alice)
        (user_service_empty\<lparr>accounts := [user_alice]\<rparr>)) = Inl BrokerError"
    by (simp add: publishMessage_def connectQueue_def env_broker_down_def user_service_empty_def)
  have f: "find (\<lambda>u. uid u = ''u1'') (accounts (connection_lost user_service_alice)) \<noteq> None"
    by (simp add: connection_lost_def user_service_alice_def user_alice_def)
  from publish_only_after_commit [where e = env_broker_down and req = request_alice
      and st = user_service_empty and i = "''u1''"]
    publish_only_after_commit [where e = env_ok and req = request_alice
      and st = "connection_lost user_service_alice" and i = "''u1''"] p f
  show ?thesis
    by (simp add: signup_broker_down_run delete_after_connection_lost_run)
qed

section \<open>The events on the queue\<close>

lemma signup_contents:
  "\<exists>new. (\<forall>q. queue_contents (broker (snd (signup e req st))) q
              = queue_contents (broker st) q @ (if q = ''user_events'' then new else []))
     \<and> (new = [] \<or> (\<exists>u \<in> set (accounts (snd (signup e req st))).
            new = [Json (signup_event u)] \<and> email req = JStr (uemail u)
            \<and> name req = JStr (uname u)))"
  using signup_cases [of e req st]
proof (elim disjE exE conjE)
  assume "broker (snd (signup e req st)) = broker st"
  then show ?thesis
    by (intro exI [of _ "[]"]) simp
next
  fix u
  let ?p = "publishMessage e ''user_events'' (signup_event u) (st\<lparr>accounts := accounts st @ [u]\<rparr>)"
  assume em: "email req = JStr (uemail u)" and nm: "name req = JStr (uname u)"
    and acc: "accounts (snd (signup e req st)) = accounts st @ [u]"
    and c: "case fst ?p of
        Inl err \<Rightarrow> signup e req st =
           (\<lparr>status = 500, body = message_body ''Something went wrong''\<rparr>,
            say (SignupError err) (snd ?p))
      | Inr ok \<Rightarrow> signup e req st =
           (\<lparr>status = 201, body = JObj [(''result'', toJSON u)]\<rparr>, snd ?p)"
  have b: "broker (snd (signup e req st)) = broker (snd ?p)"
    using c by (cases "fst ?p") simp_all
  from publish_contents [of "signup_event u" e "''user_events''" "st\<lparr>accounts := accounts st @ [u]\<rparr>"]
  obtain new where n: "new = [] \<or> new = [Json (signup_event u)]"
    and q: "\<And>q. queue_contents (broker (snd ?p)) q
        = queue_contents (broker st) q @ (if q = ''user_events'' then new else [])"
    by auto
  have "u \<in> set (accounts (snd (signup e req st)))"
    using acc by simp
  with n em nm q show ?thesis
    unfolding b by (intro exI [of _ new]) auto
qed

lemma deleteUser_contents:
  "\<exists>new. (\<forall>q. queue_contents (broker (snd (deleteUser e i st))) q
              = queue_contents (broker st) q @ (if q = ''user_events'' then new else []))
     \<and> (new = [] \<or> new = [Json (delete_event i)])"
  using deleteUser_cases [of e i st]
proof (elim disjE conjE)
  assume "broker (snd (deleteUser e i st)) = broker st"
  then show ?thesis
    by (intro exI [of _ "[]"]) simp
next
  let ?st1 = "st\<lparr>accounts := UserModal_findByIdAndDelete i (accounts st)\<rparr>"
  let ?p = "publishMessage e ''user_events'' (delete_event i) ?st1"
  assume c: "case fst ?p of
      Inl err \<Rightarrow> deleteUser e i st =
         (\<lparr>status = 500, body = message_body ''Something went wrong''\<rparr>,
          say (ErrorDeletingUser err) (snd ?p))
    | Inr ok \<Rightarrow> deleteUser e i st =
         (\<lparr>status = 200, body = message_body ''User deleted successfully''\<rparr>,
          say (DeletedAndPublished i) (snd ?p))"
  have b: "broker (snd (deleteUser e i st)) = broker (snd ?p)"
    using c by (cases "fst ?p") simp_all
  from publish_contents [of "delete_event i" e "''user_events''" ?st1]
  obtain new where n: "new = [] \<or> new = [Json (delete_event i)]"
    and q: "\<And>q. queue_contents (broker (snd ?p)) q
        = queue_contents (broker st) q @ (if q = ''user_events'' then new else [])"
    by auto
  with n q show ?thesis
    unfolding b by (intro exI [of _ new]) auto
qed

lemma event_fields:
  "get_prop (signup_event u) ''userId'' = Inr (JStr (uid u))"
  "get_prop (signup_event u) ''email'' = Inr (JStr (uemail u))"
  "get_prop (signup_event u) ''name'' = Inr (JStr (uname u))"
  "get_prop (signup_event u) ''event'' = Inr (JStr ''user_signup'')"
  "get_prop (delete_event i) ''userId'' = Inr (JStr i)"
  "get_prop (delete_event i) ''event'' = Inr (JStr ''user_delete'')"
  by (simp_all add: signup_event_def delete_event_def)

lemma post_connectQueue_consumers:
  "consumers (pbroker (snd (post_connectQueue f st))) = consumers (pbroker st)"
  by (simp add: post_connectQueue_def Let_def split_beta amqp_connect_def createChannel_def
      close_channel_def assertQueue_def split: option.splits)

lemma post_connectQueue_queues:
  "q \<noteq> ''user_events'' \<Longrightarrow>
   queues (pbroker (snd (post_connectQueue f st))) q = queues (pbroker st) q"
  by (simp add: post_connectQueue_def Let_def split_beta amqp_connect_def createChannel_def
      close_channel_def assertQueue_def split: option.splits)

lemma consumeMessages_subscription:
  "consumers (pbroker (consumeMessages f st)) = consumers (pbroker st)
   \<or> (\<exists>c. consumers (pbroker (consumeMessages f st)) = consumers (pbroker st) @ [(c, ''user_events'')])"
proof (cases "pchannel st")
  case None
  obtain r st1 where p: "post_connectQueue f st = (r, st1)"
    by (cases "post_connectQueue f st")
  have c1: "consumers (pbroker st1) = consumers (pbroker st)"
    using post_connectQueue_consumers [of f st] p by simp
  show ?thesis
    using None p c1
    by (cases r) (auto simp: consumeMessages_def channel_consume_def split: option.splits)
next
  case (Some c)
  then show ?thesis
    by (auto simp: consumeMessages_def channel_consume_def)
qed

lemma consumeMessages_queues:
  assumes "q \<noteq> ''user_events''"
  shows "queues (pbroker (consumeMessages f st)) q = queues (pbroker st) q"
proof (cases "pchannel st")
  case None
  obtain r st1 where p: "post_connectQueue f st = (r, st1)"
    by (cases "post_connectQueue f st")
  have c1: "queues (pbroker st1) q = queues (pbroker st) q"
    using post_connectQueue_queues [OF assms, of f st] p by simp
  show ?thesis
    using None p c1
    by (cases r) (auto simp: consumeMessages_def channel_consume_def split: option.splits)
next
  case (Some c)
  then show ?thesis
    by (auto simp: consumeMessages_def channel_consume_def)
qed

text \<open>
  C6. What \<open>signup\<close> and \<open>deleteUser\<close> put on the queues: nothing on any queue but
  \<open>user_events\<close>, and there at most one body, the JSON of an object with the
  \<open>userId\<close> and the \<open>event\<close> tag \<open>user_signup\<close> or \<open>user_delete\<close>, the signup event
  with the email and the name of the created user, which are those of the request. The
  consumer declares and subscribes to the queue of the same name and to no other.
\<close>

theorem published_events_and_queue_name:
  "(\<exists>new. (\<forall>q. queue_contents (broker (snd (signup e req st))) q
              = queue_contents (broker st) q @ (if q = ''user_events'' then new else []))
     \<and> (new = [] \<or> (\<exists>u \<in> set (accounts (snd (signup e req st))).
            new = [Json (signup_event u)] \<and> email req = JStr (uemail u)
            \<and> name req = JStr (uname u))))
   \<and> (\<exists>new. (\<forall>q. queue_contents (broker (snd (deleteUser e i st))) q
              = queue_contents (broker st) q @ (if q = ''user_events'' then new else []))
     \<and> (new = [] \<or> new = [Json (delete_event i)]))
   \<and> get_prop (signup_event u) ''userId'' = Inr (JStr (uid u))
   \<and> get_prop (signup_event u) ''email'' = Inr (JStr (uemail u))
   \<and> get_prop (signup_event u) ''name'' = Inr (JStr (uname u))
   \<and> get_prop (signup_event u) ''event'' = Inr (JStr ''user_signup'')
   \<and> get_prop (delete_event i) ''userId'' = Inr (JStr i)
   \<and> get_prop (delete_event i) ''event'' = Inr (JStr ''user_delete'')
   \<and> (consumers (pbroker (consumeMessages f pst)) = consumers (pbroker pst)
      \<or> (\<exists>c. consumers (pbroker (consumeMessages f pst))
              = consumers (pbroker pst) @ [(c, ''user_events'')]))
   \<and> (\<forall>q. q \<noteq> ''user_events'' \<longrightarrow>
         queues (pbroker (consumeMessages f pst)) q = queues (pbroker pst) q)"
proof -
  note signup_contents [of e req st]
  moreover note deleteUser_contents [of e i st]
  moreover note consumeMessages_subscription [of f pst]
  moreover have "\<forall>q. q \<noteq> ''user_events'' \<longrightarrow>
      queues (pbroker (consumeMessages f pst)) q = queues (pbroker pst) q"
    by (simp add: consumeMessages_queues)
  ultimately show ?thesis
    by (simp only: event_fields simp_thms)
qed

theorem published_events_and_queue_name_witness:
  "queue_contents (broker (snd (signup env_ok request_alice user_service_empty))) ''user_events''
     = [Json (signup_event user_alice)]
   \<and> queue_contents (broker (snd (deleteUser env_ok ''u1'' user_service_alice))) ''user_events''
     = [Json (signup_event user_alice), Json (delete_event ''u1'')]
   \<and> queues (pbroker (consumeMessages (\<lambda>c. False) post_mq_empty)) ''other'' = None
   \<and> consumers (pbroker (consumeMessages (\<lambda>c. False) post_mq_empty)) = [(0, ''user_events'')]"
proof -
  have d: "deleteUser env_ok ''u1'' user_service_alice =
    (\<lparr>status = 200, body = message_body ''User deleted successfully''\<rparr>,
     \<lparr>accounts = [], channel = Some 0, connection = Some 0,
      broker = \<lparr>connections = 1, channels = 1, open_channels = [0],
        queues = [''user_events'' \<mapsto> [Json (signup_event user_alice), Json (delete_event ''u1'')]],
        consumers = []\<rparr>,
      printed = [ConnectionEstablished, MessageSent (signup_event user_alice),
        MessageSent (delete_event ''u1''), DeletedAndPublished ''u1'']\<rparr>)"
    by (simp add: deleteUser_def env_ok_def user_service_alice_def user_alice_def
       publishMessage_def sendToQueue_def say_def)
  have o: "''other'' \<noteq> ''user_events''"
    by simp
  from published_events_and_queue_name [where e = env_ok and req = request_alice
      and st = user_service_empty and i = "''u1''" and u = user_alice
      and f = "\<lambda>c. False" and pst = post_mq_empty] o
  show ?thesis
    by (simp add: signup_alice_run d subscribe_run queue_contents_def)
qed

section \<open>The cached channel\<close>

lemma publish_first_use:
  assumes "channel st = None" and "\<not> fails e Connect" and "\<not> fails e CreateChannel"
    and "\<not> fails e AssertQueue"
  shows "fst (publishMessage e ''user_events'' m st) = Inr ()
    \<and> connection (snd (publishMessage e ''user_events'' m st)) = Some (connections (broker st))
    \<and> channel (snd (publishMessage e ''user_events'' m st)) = Some (channels (broker st))
    \<and> connections (broker (snd (publishMessage e ''user_events'' m st))) = Suc (connections (broker st))
    \<and> channels (broker (snd (publishMessage e ''user_events'' m st))) = Suc (channels (broker st))
    \<and> queue_contents (broker (snd (publishMessage e ''user_events'' m st))) ''user_events''
        = queue_contents (broker st) ''user_events'' @ [Json m]"
  using assms
  by (simp add: publishMessage_def connectQueue_def Let_def amqp_connect_def createChannel_def
      assertQueue_def sendToQueue_def queue_contents_def say_def split: option.splits)

lemma publish_cached_channel:
  assumes "channel st = Some c"
  shows "connection (snd (publishMessage e q m st)) = connection st
    \<and> channel (snd (publishMessage e q m st)) = Some c
    \<and> connections (broker (snd (publishMessage e q m st))) = connections (broker st)
    \<and> channels (broker (snd (publishMessage e q m st))) = channels (broker st)
    \<and> open_channels (broker (snd (publishMessage e q m st))) = open_channels (broker st)
    \<and> (c \<in> set (open_channels (broker st)) \<longrightarrow> fst (publishMessage e q m st) = Inr ())
    \<and> (c \<notin> set (open_channels (broker st)) \<longrightarrow>
          fst (publishMessage e q m st) = Inl ChannelClosed
        \<and> broker (snd (publishMessage e q m st)) = broker st)"
  using assms
  by (simp add: publishMessage_def sendToQueue_def say_def split: option.splits)

text \<open>
  C7, as amended. With no channel assigned, a publication connects, creates a channel,
  keeps both in the module's variables and sends on the new channel. With a channel
  assigned, a publication uses it and opens no connection and no channel: it succeeds
  when that channel is open, and fails with the error of \<open>sendToQueue\<close>, the broker
  untouched, when it is closed.
\<close>

theorem publisher_connects_once_and_reuses:
  "(channel st = None \<and> \<not> fails e Connect \<and> \<not> fails e CreateChannel \<and> \<not> fails e AssertQueue \<longrightarrow>
      fst (publishMessage e ''user_events'' m st) = Inr ()
    \<and> connection (snd (publishMessage e ''user_events'' m st)) = Some (connections (broker st))
    \<and> channel (snd (publishMessage e ''user_events'' m st)) = Some (channels (broker st))
    \<and> connections (broker (snd (publishMessage e ''user_events'' m st))) = Suc (connections (broker st))
    \<and> channels (broker (snd (publishMessage e ''user_events'' m st))) = Suc (channels (broker st))
    \<and> queue_contents (broker (snd (publishMessage e ''user_events'' m st))) ''user_events''
        = queue_contents (broker st) ''user_events'' @ [Json m])
   \<and> (channel st = Some c \<longrightarrow>
      connection (snd (publishMessage e q m st)) = connection st
    \<and> channel (snd (publishMessage e q m st)) = Some c
    \<and> connections (broker (snd (publishMessage e q m st))) = connections (broker st)
    \<and> channels (broker (snd (publishMessage e q m st))) = channels (broker st)
    \<and> open_channels (broker (snd (publishMessage e q m st))) = open_channels (broker st)
    \<and> (c \<in> set (open_channels (broker st)) \<longrightarrow> fst (publishMessage e q m st) = Inr ())
    \<and> (c \<notin> set (open_channels (broker st)) \<longrightarrow>
          fst (publishMessage e q m st) = Inl ChannelClosed
        \<and> broker (snd (publishMessage e q m st)) = broker st))"
  using publish_first_use [of st e m] publish_cached_channel [of st c e q m] by blast

theorem publisher_connects_once_and_reuses_witness:
  "channel user_service_empty = None \<and> \<not> fails env_ok Connect \<and> \<not> fails env_ok CreateChannel
   \<and> \<not> fails env_ok AssertQueue
   \<and> fst (publishMessage env_ok ''user_events'' (delete_event ''u1'') user_service_empty) = Inr ()
   \<and> channel (snd (publishMessage env_ok ''user_events'' (delete_event ''u1'') user_service_empty)) = Some 0
   \<and> channel user_service_alice = Some 0
   \<and> 0 \<in> set (open_channels (broker user_service_alice))
   \<and> fst (publishMessage env_ok ''user_events'' (delete_event ''u1'') user_service_alice) = Inr ()
   \<and> connections (broker (snd (publishMessage env_ok ''user_events'' (delete_event ''u1'')
        user_service_alice))) = 1
   \<and> channel (connection_lost user_service_alice) = Some 0
   \<and> 0 \<notin> set (open_channels (broker (connection_lost user_service_alice)))
   \<and> fst (publishMessage env_ok ''user_events'' (delete_event ''u1'')
        (connection_lost user_service_alice)) = Inl ChannelClosed"
proof -
  have a: "channel user_service_empty = None \<and> \<not> fails env_ok Connect
      \<and> \<not> fails env_ok CreateChannel \<and> \<not> fails env_ok AssertQueue"
    by (simp add: user_service_empty_def env_ok_def)
  have b: "channel user_service_alice = Some 0 \<and> 0 \<in> set (open_channels (broker user_service_alice))"
    by (simp add: user_service_alice_def)
  have c: "channel (connection_lost user_service_alice) = Some 0
      \<and> 0 \<notin> set (open_channels (broker (connection_lost user_service_alice)))"
    by (simp add: user_service_alice_def connection_lost_def)
  have d: "connections (broker user_service_alice) = 1" "channels (broker user_service_empty) = 0"
    by (simp_all add: user_service_alice_def user_service_empty_def broker_empty_def)
  from a b c d
    publisher_connects_once_and_reuses [where st = user_service_empty and e = env_ok
      and m = "delete_event ''u1''" and c = 0 and q = "''user_events''"]
    publisher_connects_once_and_reuses [where st = user_service_alice and e = env_ok
      and m = "delete_event ''u1''" and c = 0 and q = "''user_events''"]
    publisher_connects_once_and_reuses [where st = "connection_lost user_service_alice"
      and e = env_ok and m = "delete_event ''u1''" and c = 0 and q = "''user_events''"]
  show ?thesis
    by simp
qed

text \<open>
  C7 as stated fails. After the signup of alice the connection is lost; the next
  publication finds the closed channel in the variable, throws, and opens no new
  connection, although connecting would succeed.
\<close>

theorem no_reconnect_counterexample:
  "channel (connection_lost user_service_alice) = Some 0
   \<and> 0 \<notin> set (open_channels (broker (connection_lost user_service_alice)))
   \<and> \<not> fails env_ok Connect \<and> \<not> fails env_ok CreateChannel \<and> \<not> fails env_ok AssertQueue
   \<and> fst (publishMessage env_ok ''user_events'' (delete_event ''u1'')
        (connection_lost user_service_alice)) = Inl ChannelClosed
   \<and> connections (broker (snd (publishMessage env_ok ''user_events'' (delete_event ''u1'')
        (connection_lost user_service_alice)))) = 1
   \<and> channel (snd (publishMessage env_ok ''user_events'' (delete_event ''u1'')
        (connection_lost user_service_alice))) = Some 0
   \<and> queue_contents (broker (snd (publishMessage env_ok ''user_events'' (delete_event ''u1'')
        (connection_lost user_service_alice)))) ''user_events'' = [Json (signup_event user_alice)]"
  by (simp add: connection_lost_def user_service_alice_def publishMessage_def sendToQueue_def
      say_def queue_contents_def env_ok_def)

section \<open>Rejected signups\<close>

text \<open>
  On fields that are strings or absent the validations do not throw: a signup whose
  email, name or password fails the validation, or whose email or name the lookup finds
  already taken, is answered 400 with one of the five descriptive messages, and the
  whole state of the service, the user store and the queues included, is as before.
\<close>

lemma text_of_string_or_absent:
  "v = JUndefined \<or> (\<exists>s. v = JStr s) \<Longrightarrow> \<exists>t. to_string v = Inr t"
  by auto

lemma signup_rejects_strings_before_any_write:
  assumes em: "email req = JUndefined \<or> (\<exists>s. email req = JStr s)"
    and pw: "password req = JUndefined \<or> (\<exists>s. password req = JStr s)"
    and bad: "\<not> truthy (email req) \<or> includes_at (email req) \<noteq> Inr True
      \<or> isValidEmail (email req) \<noteq> Inr True \<or> \<not> isValidName (name req)
      \<or> isValidPassword (password req) \<noteq> Inr True
      \<or> (\<not> fails e FindOneEmail \<and> (\<exists>u \<in> set (accounts st). email req = JStr (uemail u)))
      \<or> (\<not> fails e FindOneEmail \<and> \<not> fails e FindOneName
          \<and> (\<exists>u \<in> set (accounts st). name req = JStr (uname u)))"
  shows "status (fst (signup e req st)) = 400
    \<and> body (fst (signup e req st)) \<in> message_body ` {''Invalid email format'',
         ''Name must be between 3 and 15 characters long'',
         ''Password must be between 6 and 15 characters long, include at least one letter, one number, and one special character'',
         ''User with this email already exists'', ''User with this name already exists''}
    \<and> snd (signup e req st) = st"
proof (cases "\<not> truthy (email req) \<or> includes_at (email req) \<noteq> Inr True
      \<or> isValidEmail (email req) \<noteq> Inr True \<or> \<not> isValidName (name req)
      \<or> isValidPassword (password req) \<noteq> Inr True")
  case True
  from em have i: "\<not> truthy (email req) \<or> (\<exists>b. includes_at (email req) = Inr b)"
    by auto
  from text_of_string_or_absent [OF em] obtain b1 where e1: "isValidEmail (email req) = Inr b1"
    by (auto simp: isValidEmail_def)
  from text_of_string_or_absent [OF pw] obtain b2 where
    e2: "isValidPassword (password req) = Inr b2"
    by (auto simp: isValidPassword_def)
  from True i show ?thesis
    by (auto simp: signup_def invalid_email_def e1 e2 split: sum.splits bool.splits)
next
  case False
  then have v: "signup e req st = signup_valid e (email req) (password req) (name req) st"
    by (auto simp: signup_def split: sum.splits bool.splits)
  from False bad have c: "(\<not> fails e FindOneEmail
        \<and> (\<exists>u \<in> set (accounts st). JStr (uemail u) = email req))
      \<or> (\<not> fails e FindOneEmail \<and> \<not> fails e FindOneName
        \<and> (\<exists>u \<in> set (accounts st). JStr (uname u) = name req))"
    by auto
  have fe: "(\<exists>u \<in> set us. P u) \<Longrightarrow> find P us \<noteq> None" for P and us :: "user list"
    by (auto simp: find_None_iff)
  from c show ?thesis
    unfolding v by (auto simp: signup_valid_def dest!: fe)
qed


section \<open>Fetching a user\<close>

lemma find_by_id:
  "distinct (map uid us) \<Longrightarrow> u \<in> set us \<Longrightarrow> find (\<lambda>v. uid v = uid u) us = Some u"
  by (induction us) force+

text \<open>
  C10. For a stored user, \<open>getUserById\<close> answers 200 with the whole document, the
  password hash included, and changes nothing.
\<close>

theorem getUserById_returns_whole_document:
  assumes "u \<in> set (accounts st)" and "distinct (map uid (accounts st))"
    and "\<not> fails e FindById"
  shows "getUserById e (uid u) st = (\<lparr>status = 200, body = toJSON u\<rparr>, st)
    \<and> get_prop (toJSON u) ''password'' = Inr (JStr (upassword u))
    \<and> get_prop (toJSON u) ''email'' = Inr (JStr (uemail u))
    \<and> get_prop (toJSON u) ''name'' = Inr (JStr (uname u))
    \<and> get_prop (toJSON u) ''_id'' = Inr (JStr (uid u))"
  using assms by (simp add: getUserById_def find_by_id toJSON_def)

theorem getUserById_returns_whole_document_witness:
  "getUserById env_ok ''u1'' (snd (signup env_ok request_alice user_service_empty))
    = (\<lparr>status = 200, body = toJSON user_alice\<rparr>, snd (signup env_ok request_alice user_service_empty))
   \<and> get_prop (toJSON user_alice) ''password'' = Inr (JStr ''$2a$12$abc123!'')"
proof -
  let ?st = "snd (signup env_ok request_alice user_service_empty)"
  have a: "user_alice \<in> set (accounts ?st)" by (simp add: signup_alice_run)
  have b: "distinct (map uid (accounts ?st))" by (simp add: signup_alice_run)
  have c: "\<not> fails env_ok FindById" by (simp add: env_ok_def)
  from getUserById_returns_whole_document [OF a b c] show ?thesis
    by (simp add: user_alice_def)
qed

end
